theory Spec2Isabelle
  imports Complex_Main "HOL-Library.Word"
begin

section \<open>Numbers\<close>

text \<open>
  The C floats and doubles of the renderer are modelled as real numbers: rounding is not
  part of the model. A float that need not be a finite number is a \<open>real option\<close>: the
  value \<open>None\<close> stands for the outcome of a floating-point division by zero (an infinity or
  a NaN) and for memory that was allocated and never written.
\<close>

definition fdiv :: "real \<Rightarrow> real \<Rightarrow> real option" where
  "fdiv a b = (if b = 0 then None else Some (a / b))"

text \<open>
  The counts and sizes are C ints, modelled as integers without a bound: a product that
  leaves the range of an int is not part of the model, and a statement that depends on such
  a product names the range.
\<close>

definition INT_MAX :: int where
  "INT_MAX = 2147483647"

text \<open>
  \<^verbatim>\<open>std::round\<close>: halves are rounded away from zero. The result is a double and has the
  sign of the argument: a negative number above -1/2 is rounded to the negative zero. The
  double is given by its sign bit and its absolute value.
\<close>

definition c_round :: "real \<Rightarrow> int" where
  "c_round v = (if 0 \<le> v then \<lfloor>v + 1 / 2\<rfloor> else \<lceil>v - 1 / 2\<rceil>)"

definition std_round :: "real \<Rightarrow> bool \<times> nat" where
  "std_round v = (v < 0, nat \<bar>c_round v\<bar>)"

section \<open>Rotation utility\<close>

text \<open>A three-component float array is a triple.\<close>

type_synonym vec3 = "real \<times> real \<times> real"

text \<open>\<^verbatim>\<open>rotateAroundZ(in, angle, out)\<close>: the array written to \<open>out\<close> is the result.\<close>

fun rotateAroundZ :: "vec3 \<Rightarrow> real \<Rightarrow> vec3" where
  "rotateAroundZ (in0, in1, in2) angle =
     (let cosa = cos angle; sina = sin angle
      in (cosa * in0 - sina * in1, sina * in0 + cosa * in1, in2))"

fun rotateAroundY :: "vec3 \<Rightarrow> real \<Rightarrow> vec3" where
  "rotateAroundY (in0, in1, in2) angle =
     (let cosa = cos angle; sina = sin angle
      in (cosa * in0 + sina * in2, in1, - sina * in0 + cosa * in2))"

section \<open>The cubes\<close>

text \<open>
  The classes \<^verbatim>\<open>GoftCube\<close> and \<^verbatim>\<open>RenderCube\<close> are declared in \<^verbatim>\<open>FoMo.h\<close>, which is
  not among the sources. A \<open>GoftCube\<close> is the record of what its accessors return; a
  \<open>RenderCube\<close> is the cube it was constructed from together with what its setters were
  given (\<open>None\<close> as long as no setter was called).
\<close>

record GoftCube =
  readgrid :: "real list list"
  readngrid :: int
  readdim :: int
  readvar :: "nat \<Rightarrow> real list"
  readlambda0 :: real

datatype ObservationType = Imaging | Spectroscopic

record Frame =
  newgrid :: "real option list list"
  newdata :: "real option list list"
  rendermethod :: string
  resolution :: "int \<times> int \<times> int \<times> int \<times> real"
  observationtype :: ObservationType
  angles :: "real \<times> real"

record RenderCube =
  rc_goftcube :: GoftCube
  rc_frame :: "Frame option"

definition RenderCube_of :: "GoftCube \<Rightarrow> RenderCube" where
  "RenderCube_of g = \<lparr>rc_goftcube = g, rc_frame = None\<rparr>"

section \<open>The spatial index\<close>

text \<open>
  The R-tree is Boost's. Its contents are the list of values (a point paired with the index
  of the source point) it was built from, and the one query the renderer makes,
  \<^verbatim>\<open>nearest(p, 1) && within(box)\<close>, is answered as the library documents it: of the values
  strictly inside the box, the one nearest to \<open>p\<close> (the first of them in the list when
  several are equally near: the library leaves the choice open).
\<close>

type_synonym box = "vec3 \<times> vec3"

fun within_box :: "box \<Rightarrow> vec3 \<Rightarrow> bool" where
  "within_box ((x0, y0, z0), (x1, y1, z1)) (x, y, z) =
     (x0 < x \<and> x < x1 \<and> y0 < y \<and> y < y1 \<and> z0 < z \<and> z < z1)"

fun comparable_distance :: "vec3 \<Rightarrow> vec3 \<Rightarrow> real" where
  "comparable_distance (x0, y0, z0) (x1, y1, z1) =
     (x1 - x0) * (x1 - x0) + (y1 - y0) * (y1 - y0) + (z1 - z0) * (z1 - z0)"

definition rtree_query :: "(vec3 \<times> nat) list \<Rightarrow> vec3 \<Rightarrow> box \<Rightarrow> (vec3 \<times> nat) list" where
  "rtree_query tree p b =
     (case filter (\<lambda>v. within_box b (fst v)) tree of
        [] \<Rightarrow> []
      | v # vs \<Rightarrow>
          [fold (\<lambda>w best. if comparable_distance p (fst w) < comparable_distance p (fst best)
                            then w else best) vs v])"

section \<open>The renderer\<close>

text \<open>
  The class declaration (\<^verbatim>\<open>FoMo-internal.h\<close>) and the kernel program (read from a file by
  \<^verbatim>\<open>readKernelSource\<close>) are not among the sources. What the methods use of them is a
  parameter of the model, the record \<open>Externals\<close>: the constants \<open>chunk_size\<close> and
  \<open>bytes_per_pixel\<close>, the default value of the parameter \<open>max_intensity\<close>, the kernel
  \<^verbatim>\<open>calculate_ray\<close> as the function it computes for one work item, and how the standard
  library prints on a stream a double whose value is an integer, given by its sign bit and
  its absolute value.
\<close>

datatype DisplayMode = IntegratedIntensity | AllIntensities

text \<open>
  Modelled from the spec: the enumeration \<open>DisplayMode\<close> is declared in the missing header;
  the methods name the two modes above and the spec knows of no other.
\<close>

record Parameters =
  rxx :: real
  rxy :: real
  rxz :: real
  ryx :: real
  ryy :: real
  ryz :: real
  rzx :: real
  rzy :: real
  rzz :: real
  pixel_width :: "real option"
  pixel_height :: "real option"

text \<open>The build options of the program, one field for each \<^verbatim>\<open>-D\<close> of \<^verbatim>\<open>setDisplayMode\<close>.\<close>

record Program =
  ALL_INTENSITIES :: bool
  INTEGRATED_INTENSITY :: bool
  MAX_INTENSITY :: real
  X_PIXEL :: int
  LAMBDA_PIXEL :: int
  LAMBDA0 :: real
  MINX :: "real option"
  MAXX :: "real option"
  MINY :: "real option"
  MAXY :: "real option"
  MINZ :: "real option"
  MAXZ :: "real option"
  GX :: "real option"
  GSX :: int
  GY :: "real option"
  GSY :: int
  GZ :: "real option"
  GSZ :: int
  OX :: real
  OY :: real

text \<open>
  What a work item of the kernel can read: the program's constants and the buffers bound
  to the first three kernel arguments.
\<close>

record KernelEnv =
  ke_program :: Program
  ke_input :: "real option list"
  ke_lambdaval :: "real option list"
  ke_parameters :: "Parameters option"

text \<open>
  Modelled from the spec: the kernel \<^verbatim>\<open>calculate_ray\<close> is not among the sources. A work
  item with global id \<open>g\<close> evaluates pixel \<open>g\<close>; \<open>ray_floats env g k\<close> is the \<open>k\<close>-th float
  it produces in the mode AllIntensities (one for each wavelength sample), \<open>ray_bytes env g k\<close>
  the \<open>k\<close>-th byte it produces in the other mode.
\<close>

record Kernel =
  ray_floats :: "KernelEnv \<Rightarrow> nat \<Rightarrow> nat \<Rightarrow> real"
  ray_bytes :: "KernelEnv \<Rightarrow> nat \<Rightarrow> nat \<Rightarrow> 8 word"

record Externals =
  ext_chunk_size :: nat
  ext_bytes_per_pixel :: nat
  ext_max_intensity :: real
  ext_kernel :: Kernel
  ext_show_double :: "bool \<times> nat \<Rightarrow> string"

text \<open>
  What a run prints and sends out, in order. A timing line is its message, without the
  duration. The process rank is 0 (no MPI).
\<close>

datatype event =
    Diagnostic string
  | Timing string
  | Coverage nat int
  | BuildRTree nat
  | EnqueueKernel nat nat nat
  | WriteGoftCube string RenderCube

text \<open>
  The ways in which a call has no defined result: the constructor reads a coordinate vector
  that the cube does not have, or dereferences the end iterator of an empty one; with \<open>chunk_size = 0\<close> the loop of \<^verbatim>\<open>render\<close> does
  not end (and the remainder \<^verbatim>\<open>pixels % chunk_size\<close> divides by zero); \<^verbatim>\<open>renderToCube\<close> writes \<^verbatim>\<open>newgrid[2]\<close>, which it has pushed only when
  \<open>lambda_pixel > 1\<close>; a negative number is the length of an array (\<^verbatim>\<open>new float[n]\<close> throws,
  \<^verbatim>\<open>float xs[n]\<close> is undefined) or the size of a job (the conversion to \<^verbatim>\<open>size_t\<close> makes it a
  job of more work items than the output buffer has room for).
\<close>

datatype failure = EmptyCoordinates | ChunkSizeZero | IndexPastEnd | NegativeSize

text \<open>
  The state of a renderer. A device buffer allocated with \<^verbatim>\<open>CL_MEM_ALLOC_HOST_PTR\<close> is one
  array of floats (or bytes), and a pointer obtained by mapping the buffer at offset 0
  addresses that array: the fields \<open>cl_buffer_...\<close> are the arrays. All OpenCL calls are
  taken to succeed, and a command has taken effect when the host next looks (the queues are
  in order and every read is blocking).
\<close>

record RegularGridRenderer =
  chunk_size :: nat
  bytes_per_pixel :: nat
  kernel_source :: Kernel
  goftCube :: GoftCube
  rtree :: "(vec3 \<times> nat) list"
  minx :: real
  maxx :: real
  miny :: real
  maxy :: real
  minz :: real
  maxz :: real
  hasRegularGrid :: bool
  hasRenderingSettings :: bool
  gridx :: int
  gridy :: int
  gridz :: int
  grid_mid_x :: real
  grid_size_x :: "real option"
  grid_mid_y :: real
  grid_size_y :: "real option"
  grid_mid_z :: real
  grid_size_z :: "real option"
  cl_buffer_points :: "real option list"
  cl_buffer_emissivity :: "real option list"
  x_pixel :: int
  y_pixel :: int
  lambda_pixel :: int
  lambda_width :: real
  max_intensity :: real
  ox :: real
  oy :: real
  cl_buffer_lambdaval :: "real option list"
  cl_buffer_bytes_out :: "nat \<Rightarrow> 8 word option list"
  cl_buffer_floats_out :: "nat \<Rightarrow> real option list"
  displayMode :: DisplayMode
  kernels :: "Program option"
  parameters :: "Parameters option"

subsection \<open>Constructor and bounds\<close>

definition min_element :: "real list \<Rightarrow> real option" where
  "min_element xs = (case xs of [] \<Rightarrow> None | x # ys \<Rightarrow> Some (fold min ys x))"

definition max_element :: "real list \<Rightarrow> real option" where
  "max_element xs = (case xs of [] \<Rightarrow> None | x # ys \<Rightarrow> Some (fold max ys x))"

text \<open>
  The values the R-tree is built from. The coordinate vectors are read at the indices
  below \<open>ng\<close> without a check, as the source does.
\<close>

definition input_values :: "GoftCube \<Rightarrow> (vec3 \<times> nat) list" where
  "input_values g =
     map (\<lambda>i. ((readgrid g ! 0 ! i, readgrid g ! 1 ! i,
                  (if readdim g = 2 then 0 else readgrid g ! 2 ! i)), i))
       [0..<nat (readngrid g)]"

text \<open>
  Modelled from the spec: the two flags are set by no line of the constructor; the class
  declaration that initialises them is missing, and the pipeline of the spec starts in the
  state Uninitialized, so both are false in a new renderer. The other fields that the
  constructor leaves alone are read by no method before a method has set them; the model
  gives them fixed values.
\<close>

definition new_RegularGridRenderer ::
  "Externals \<Rightarrow> GoftCube \<Rightarrow> failure + (event list \<times> RegularGridRenderer)" where
  "new_RegularGridRenderer ext g =
     (if length (readgrid g) < 3 then Inl EmptyCoordinates else
      case (min_element (readgrid g ! 0), max_element (readgrid g ! 0),
            min_element (readgrid g ! 1), max_element (readgrid g ! 1),
            min_element (readgrid g ! 2), max_element (readgrid g ! 2)) of
        (Some x0, Some x1, Some y0, Some y1, Some z0, Some z1) \<Rightarrow>
          Inr ([Timing ''Finished initializing OpenCL in '',
                Timing ''Finished preparing coordinates in '',
                BuildRTree (nat (readngrid g)),
                Timing ''Finished building R-tree in '',
                Timing ''Finished computing bounds in ''],
               \<lparr>chunk_size = ext_chunk_size ext,
                bytes_per_pixel = ext_bytes_per_pixel ext,
                kernel_source = ext_kernel ext,
                goftCube = g,
                rtree = input_values g,
                minx = x0, maxx = x1, miny = y0, maxy = y1, minz = z0, maxz = z1,
                hasRegularGrid = False,
                hasRenderingSettings = False,
                gridx = 0, gridy = 0, gridz = 0,
                grid_mid_x = 0, grid_size_x = None,
                grid_mid_y = 0, grid_size_y = None,
                grid_mid_z = 0, grid_size_z = None,
                cl_buffer_points = [],
                cl_buffer_emissivity = [],
                x_pixel = 0, y_pixel = 0, lambda_pixel = 0,
                lambda_width = 0, max_intensity = 0, ox = 0, oy = 0,
                cl_buffer_lambdaval = [],
                cl_buffer_bytes_out = (\<lambda>_. []),
                cl_buffer_floats_out = (\<lambda>_. []),
                displayMode = IntegratedIntensity,
                kernels = None,
                parameters = None\<rparr>)
      | _ \<Rightarrow> Inl EmptyCoordinates)"

definition readBounds :: "RegularGridRenderer \<Rightarrow> real \<times> real \<times> real \<times> real \<times> real \<times> real" where
  "readBounds s = (minx s, maxx s, miny s, maxy s, minz s, maxz s)"

subsection \<open>constructRegularGrid\<close>

text \<open>
  \<^verbatim>\<open>points\<close> and \<^verbatim>\<open>emissivity\<close> are both obtained by mapping \<^verbatim>\<open>cl_buffer_points\<close> at
  offset 0 (the second call does not name \<^verbatim>\<open>cl_buffer_emissivity\<close>), so both address the
  same array \<open>mem\<close> of floats: \<^verbatim>\<open>points[index]\<close> is the eight floats from \<open>8 * index\<close> on,
  \<^verbatim>\<open>emissivity[index]\<close> is the float at \<open>index\<close>.
\<close>

definition store_float8 :: "real option list \<Rightarrow> nat \<Rightarrow> real list \<Rightarrow> real option list" where
  "store_float8 mem index v = fold (\<lambda>c m. m[8 * index + c := Some (v ! c)]) [0..<8] mem"

definition store_float :: "real option list \<Rightarrow> nat \<Rightarrow> real \<Rightarrow> real option list" where
  "store_float mem index v = mem[index := Some v]"

text \<open>\<^verbatim>\<open>double(i)/(n - 1)*(hi - lo) + lo\<close>: with \<open>n = 1\<close> the quotient is 0/0.\<close>

definition cell_coordinate :: "nat \<Rightarrow> int \<Rightarrow> real \<Rightarrow> real \<Rightarrow> real option" where
  "cell_coordinate i n lo hi =
     map_option (\<lambda>q. q * (hi - lo) + lo) (fdiv (real i) (real_of_int (n - 1)))"

definition deltaz :: "RegularGridRenderer \<Rightarrow> int \<Rightarrow> real" where
  "deltaz s gridz' =
     (if gridz' \<noteq> 1 then (maxz s - minz s) / real_of_int (gridz' - 1) else maxz s - minz s)"

text \<open>
  The query of one cell. A coordinate that is a NaN makes every comparison of the box test
  false, so nothing is returned.
\<close>

definition cell_query ::
  "RegularGridRenderer \<Rightarrow> int \<Rightarrow> int \<Rightarrow> int \<Rightarrow> real \<Rightarrow> real \<Rightarrow> real \<Rightarrow> nat \<Rightarrow> nat \<Rightarrow> nat
     \<Rightarrow> (vec3 \<times> nat) list" where
  "cell_query s gridx' gridy' gridz' max_distance_x max_distance_y max_distance_z i j k =
     (case (cell_coordinate j gridx' (minx s) (maxx s),
            cell_coordinate i gridy' (miny s) (maxy s)) of
        (Some x, Some y) \<Rightarrow>
          (let z = real k * deltaz s gridz' + minz s
           in rtree_query (rtree s) (x, y, z)
                ((x - max_distance_x, y - max_distance_y, z - max_distance_z),
                 (x + max_distance_x, y + max_distance_y, z + max_distance_z)))
      | _ \<Rightarrow> [])"

definition found_point :: "GoftCube \<Rightarrow> nat \<Rightarrow> real list" where
  "found_point g nearestindex =
     [100000000 * (readvar g 0 ! nearestindex), readvar g 1 ! nearestindex,
      readvar g 2 ! nearestindex, readvar g 3 ! nearestindex, readvar g 4 ! nearestindex,
      0, 0, 0]"

definition found_emissivity :: "GoftCube \<Rightarrow> nat \<Rightarrow> real" where
  "found_emissivity g nearestindex =
     100000000 * (readvar g 0 ! nearestindex) * (readvar g 1 ! nearestindex) * 1.064467019"

definition default_point :: "real list" where
  "default_point = [0, 1, 0, 0, 0, 0, 0, 0]"

definition cell_index :: "int \<Rightarrow> int \<Rightarrow> nat \<Rightarrow> nat \<Rightarrow> nat \<Rightarrow> nat" where
  "cell_index gridx' gridz' i j k = i * nat gridx' * nat gridz' + j * nat gridz' + k"

text \<open>
  The two assignments of a cell, \<^verbatim>\<open>points[index] = ...\<close> and then
  \<^verbatim>\<open>emissivity[index] = ...\<close>, on the mapped array.
\<close>

definition write_cell :: "real option list \<Rightarrow> nat \<Rightarrow> real list \<Rightarrow> real \<Rightarrow> real option list" where
  "write_cell mem index point e = store_float (store_float8 mem index point) index e"

text \<open>The body of the innermost loop, on the mapped array and the counter.\<close>

definition grid_cell ::
  "RegularGridRenderer \<Rightarrow> int \<Rightarrow> int \<Rightarrow> int \<Rightarrow> real \<Rightarrow> real \<Rightarrow> real \<Rightarrow> nat \<Rightarrow> nat \<Rightarrow> nat
     \<Rightarrow> real option list \<times> nat \<Rightarrow> real option list \<times> nat" where
  "grid_cell s gridx' gridy' gridz' max_distance_x max_distance_y max_distance_z i j k mc =
     (let returnedValues =
            cell_query s gridx' gridy' gridz' max_distance_x max_distance_y max_distance_z i j k;
          index = cell_index gridx' gridz' i j k
      in if length returnedValues \<ge> 1
         then (let nearestindex = snd (returnedValues ! 0)
               in (write_cell (fst mc) index (found_point (goftCube s) nearestindex)
                     (found_emissivity (goftCube s) nearestindex),
                   snd mc + 1))
         else (write_cell (fst mc) index default_point 0, snd mc))"

definition grid_loops ::
  "RegularGridRenderer \<Rightarrow> int \<Rightarrow> int \<Rightarrow> int \<Rightarrow> real \<Rightarrow> real \<Rightarrow> real
     \<Rightarrow> real option list \<times> nat \<Rightarrow> real option list \<times> nat" where
  "grid_loops s gridx' gridy' gridz' max_distance_x max_distance_y max_distance_z =
     fold (\<lambda>i.
       fold (\<lambda>j.
         fold (\<lambda>k.
           grid_cell s gridx' gridy' gridz' max_distance_x max_distance_y max_distance_z i j k)
           [0..<nat gridz'])
         [0..<nat gridx'])
       [0..<nat gridy']"

text \<open>\<^verbatim>\<open>(max - min)*float(n)/float(n - 1)\<close>: a division by zero when \<open>n = 1\<close>.\<close>

definition grid_size :: "real \<Rightarrow> real \<Rightarrow> int \<Rightarrow> real option" where
  "grid_size lo hi n = fdiv ((hi - lo) * real_of_int n) (real_of_int (n - 1))"

text \<open>
  In a build without OpenMP the loops run in the order of the source, one cell after the
  other: this is \<open>constructRegularGrid\<close>. The two closing writes copy the array at
  \<^verbatim>\<open>points\<close> into \<^verbatim>\<open>cl_buffer_points\<close>, which is that array, and the first \<open>input_size\<close>
  floats at \<^verbatim>\<open>emissivity\<close> into \<^verbatim>\<open>cl_buffer_emissivity\<close>. A negative \<open>input_size\<close> counts
  as 0.
\<close>

definition constructRegularGrid ::
  "int \<Rightarrow> int \<Rightarrow> int \<Rightarrow> real \<Rightarrow> real \<Rightarrow> real \<Rightarrow> RegularGridRenderer
     \<Rightarrow> event list \<times> RegularGridRenderer" where
  "constructRegularGrid gridx' gridy' gridz' max_distance_x max_distance_y max_distance_z s =
     (let flat = (readdim (goftCube s) < 3 \<or> gridz' = 1);
          input_size = nat (gridx' * gridy' * gridz');
          mc = grid_loops s gridx' gridy' gridz' max_distance_x max_distance_y max_distance_z
                 (replicate (8 * input_size) None, 0)
      in ((if flat
           then [Diagnostic ''Assuming that this is a 2D simulations: setting thickness of simulation to 1 Mm.'']
           else [])
          @ [Timing ''Finished allocating grid-dependent OpenCL buffers in '',
             Coverage (snd mc) (gridx' * gridy' * gridz'),
             Timing ''Finished constructing regular grid in '',
             Timing ''Finished enqueuing grid-dependent OpenCL buffers write in ''],
          s\<lparr>hasRegularGrid := True,
            hasRenderingSettings := False,
            gridx := gridx',
            gridy := gridy',
            gridz := gridz',
            grid_mid_x := (minx s + maxx s) / 2,
            grid_size_x := grid_size (minx s) (maxx s) gridx',
            grid_mid_y := (miny s + maxy s) / 2,
            grid_size_y := grid_size (miny s) (maxy s) gridy',
            grid_mid_z := (minz s + maxz s) / 2,
            grid_size_z := (if flat then Some 1 else grid_size (minz s) (maxz s) gridz'),
            cl_buffer_points := fst mc,
            cl_buffer_emissivity := take input_size (fst mc)\<rparr>))"

text \<open>
  In a build with OpenMP (\<^verbatim>\<open>parallel for schedule(dynamic) collapse(2)\<close> on the two outer
  loops) the runtime hands the iterations to the threads, and the source does not fix the
  order in which the cells are visited. \<open>constructRegularGrid_omp\<close> is the method with the
  body of the loops run for the cells \<open>(i, j, k)\<close> of a given list, one cell at a time and in
  the order of the list.
\<close>

definition grid_visits ::
  "RegularGridRenderer \<Rightarrow> int \<Rightarrow> int \<Rightarrow> int \<Rightarrow> real \<Rightarrow> real \<Rightarrow> real \<Rightarrow> (nat \<times> nat \<times> nat) list
     \<Rightarrow> real option list \<times> nat \<Rightarrow> real option list \<times> nat" where
  "grid_visits s gridx' gridy' gridz' max_distance_x max_distance_y max_distance_z order =
     fold (\<lambda>c. grid_cell s gridx' gridy' gridz' max_distance_x max_distance_y max_distance_z
                 (fst c) (fst (snd c)) (snd (snd c)))
       order"

definition constructRegularGrid_omp ::
  "(nat \<times> nat \<times> nat) list \<Rightarrow> int \<Rightarrow> int \<Rightarrow> int \<Rightarrow> real \<Rightarrow> real \<Rightarrow> real \<Rightarrow> RegularGridRenderer
     \<Rightarrow> event list \<times> RegularGridRenderer" where
  "constructRegularGrid_omp order gridx' gridy' gridz' max_distance_x max_distance_y max_distance_z s =
     (let flat = (readdim (goftCube s) < 3 \<or> gridz' = 1);
          input_size = nat (gridx' * gridy' * gridz');
          mc = grid_visits s gridx' gridy' gridz' max_distance_x max_distance_y max_distance_z order
                 (replicate (8 * input_size) None, 0)
      in ((if flat
           then [Diagnostic ''Assuming that this is a 2D simulations: setting thickness of simulation to 1 Mm.'']
           else [])
          @ [Timing ''Finished allocating grid-dependent OpenCL buffers in '',
             Coverage (snd mc) (gridx' * gridy' * gridz'),
             Timing ''Finished constructing regular grid in '',
             Timing ''Finished enqueuing grid-dependent OpenCL buffers write in ''],
          s\<lparr>hasRegularGrid := True,
            hasRenderingSettings := False,
            gridx := gridx',
            gridy := gridy',
            gridz := gridz',
            grid_mid_x := (minx s + maxx s) / 2,
            grid_size_x := grid_size (minx s) (maxx s) gridx',
            grid_mid_y := (miny s + maxy s) / 2,
            grid_size_y := grid_size (miny s) (maxy s) gridy',
            grid_mid_z := (minz s + maxz s) / 2,
            grid_size_z := (if flat then Some 1 else grid_size (minz s) (maxz s) gridz'),
            cl_buffer_points := fst mc,
            cl_buffer_emissivity := take input_size (fst mc)\<rparr>))"

subsection \<open>setDisplayMode and setRenderingSettings\<close>

definition per_cell :: "real option \<Rightarrow> int \<Rightarrow> real option" where
  "per_cell extent n = (case extent of None \<Rightarrow> None | Some g \<Rightarrow> fdiv g (real_of_int n))"

text \<open>
  The program is built with the constants of the moment; both kernels are made from it,
  and their arguments are chosen by the mode (see \<open>kernel_env\<close>).
\<close>

definition setDisplayMode :: "DisplayMode \<Rightarrow> RegularGridRenderer \<Rightarrow> event list \<times> RegularGridRenderer" where
  "setDisplayMode displayMode' s =
     ([Timing ''Finished compiling OpenCL program in '',
       Timing ''Finished creating kernels in '',
       Timing ''Finished settings kernel arguments in ''],
      s\<lparr>displayMode := displayMode',
        kernels := Some
          \<lparr>ALL_INTENSITIES = (displayMode' = AllIntensities),
           INTEGRATED_INTENSITY = (displayMode' = IntegratedIntensity),
           MAX_INTENSITY = max_intensity s,
           X_PIXEL = x_pixel s,
           LAMBDA_PIXEL = lambda_pixel s,
           LAMBDA0 = readlambda0 (goftCube s),
           MINX = map_option (\<lambda>g. - g / 2) (grid_size_x s),
           MAXX = map_option (\<lambda>g. g / 2) (grid_size_x s),
           MINY = map_option (\<lambda>g. - g / 2) (grid_size_y s),
           MAXY = map_option (\<lambda>g. g / 2) (grid_size_y s),
           MINZ = map_option (\<lambda>g. - g / 2) (grid_size_z s),
           MAXZ = map_option (\<lambda>g. g / 2) (grid_size_z s),
           GX = per_cell (grid_size_x s) (gridx s),
           GSX = gridx s,
           GY = per_cell (grid_size_y s) (gridy s),
           GSY = gridy s,
           GZ = per_cell (grid_size_z s) (gridz s),
           GSZ = gridz s,
           OX = ox s,
           OY = oy s\<rparr>\<rparr>)"

definition lambda_values :: "int \<Rightarrow> real \<Rightarrow> real option list" where
  "lambda_values lambda_pixel' lambda_width_in_A =
     map (\<lambda>i. map_option (\<lambda>q. q * lambda_width_in_A - lambda_width_in_A / 2)
                (fdiv (real i) (real_of_int (lambda_pixel' - 1))))
       [0..<nat lambda_pixel']"

definition setRenderingSettings ::
  "int \<Rightarrow> int \<Rightarrow> int \<Rightarrow> real \<Rightarrow> DisplayMode \<Rightarrow> real \<Rightarrow> RegularGridRenderer
     \<Rightarrow> event list \<times> RegularGridRenderer" where
  "setRenderingSettings x_pixel' y_pixel' lambda_pixel' lambda_width' displayMode' max_intensity' s =
     (if \<not> hasRegularGrid s
      then ([Diagnostic ''Cannot call setRenderingSettings before calling constructRegularGrid! Returning.''], s)
      else
        (let pixels = x_pixel' * y_pixel';
             output_amount = nat (min (int (chunk_size s)) pixels * lambda_pixel');
             lambda_width_in_A = lambda_width' * readlambda0 (goftCube s) / 299792458;
             r = setDisplayMode displayMode'
                   (s\<lparr>hasRenderingSettings := True,
                      x_pixel := x_pixel',
                      y_pixel := y_pixel',
                      lambda_pixel := lambda_pixel',
                      lambda_width := lambda_width',
                      max_intensity := max_intensity',
                      ox := real_of_int x_pixel' / 2,
                      oy := real_of_int y_pixel' / 2,
                      cl_buffer_lambdaval := lambda_values lambda_pixel' lambda_width_in_A,
                      cl_buffer_bytes_out := (\<lambda>_. replicate (bytes_per_pixel s * output_amount) None),
                      cl_buffer_floats_out := (\<lambda>_. replicate output_amount None)\<rparr>)
         in ([Timing ''Finished setting and processing rendering settings in '',
              Timing ''Finished pre-computing and mapping lambda values in ''] @ fst r,
             snd r)))"

subsection \<open>render\<close>

text \<open>
  The buffer bound to the first kernel argument is the emissivity in the mode
  IntegratedIntensity and the points otherwise; a kernel reads the buffers as they are
  when it runs.
\<close>

definition kernel_env :: "Program \<Rightarrow> RegularGridRenderer \<Rightarrow> KernelEnv" where
  "kernel_env p s =
     \<lparr>ke_program = p,
      ke_input = (if INTEGRATED_INTENSITY p then cl_buffer_emissivity s else cl_buffer_points s),
      ke_lambdaval = cl_buffer_lambdaval s,
      ke_parameters = parameters s\<rparr>"

text \<open>
  Modelled from the spec: what a job of \<open>n\<close> work items from global id \<open>offset\<close> on leaves
  in its output buffer. The kernel is not among the sources; \<^verbatim>\<open>extractData\<close> reads the
  results of a job from the start of the buffer, pixel after pixel, \<open>stride\<close> values each.
\<close>

definition write_chunk :: "(nat \<Rightarrow> nat \<Rightarrow> 'a) \<Rightarrow> nat \<Rightarrow> nat \<Rightarrow> 'a option list \<Rightarrow> 'a option list" where
  "write_chunk f n stride old =
     concat (map (\<lambda>q. map (\<lambda>k. Some (f q k)) [0..<stride]) [0..<n]) @ drop (n * stride) old"

definition enqueueKernel :: "nat \<Rightarrow> nat \<Rightarrow> nat \<Rightarrow> RegularGridRenderer \<Rightarrow> event list \<times> RegularGridRenderer" where
  "enqueueKernel index offset n s =
     ([EnqueueKernel index offset n],
      (case kernels s of
         None \<Rightarrow> s
       | Some p \<Rightarrow>
           if ALL_INTENSITIES p
           then s\<lparr>cl_buffer_floats_out := (cl_buffer_floats_out s)
                    (index := write_chunk
                       (\<lambda>q. ray_floats (kernel_source s) (kernel_env p s) (offset + q))
                       n (nat (LAMBDA_PIXEL p)) (cl_buffer_floats_out s index))\<rparr>
           else s\<lparr>cl_buffer_bytes_out := (cl_buffer_bytes_out s)
                    (index := write_chunk
                       (\<lambda>q. ray_bytes (kernel_source s) (kernel_env p s) (offset + q))
                       n (bytes_per_pixel s) (cl_buffer_bytes_out s index))\<rparr>))"

text \<open>The two output arrays of a render call: \<^verbatim>\<open>bytes\<close> and \<^verbatim>\<open>floats\<close>; a null pointer is \<open>[]\<close>.\<close>

type_synonym outputs = "8 word option list \<times> real option list"

definition extractData :: "nat \<Rightarrow> nat \<Rightarrow> nat \<Rightarrow> outputs \<Rightarrow> RegularGridRenderer \<Rightarrow> outputs" where
  "extractData index pixels_in_job offset out s =
     (if displayMode s = AllIntensities
      then (let local_offset = offset * nat (lambda_pixel s)
            in (fst out,
                fold (\<lambda>i floats. floats[local_offset + i := cl_buffer_floats_out s index ! i])
                  [0..<pixels_in_job * nat (lambda_pixel s)] (snd out)))
      else (let local_offset = offset * bytes_per_pixel s
            in (fold (\<lambda>i bytes. bytes[local_offset + i := cl_buffer_bytes_out s index ! i])
                  [0..<pixels_in_job * bytes_per_pixel s] (fst out),
                snd out)))"

text \<open>
  The loop of \<^verbatim>\<open>render\<close>, from the offset it has reached: the events so far, the state and
  the output arrays are carried along; the index of the job still to be drained is returned
  with them.
\<close>

function render_loop ::
  "nat \<Rightarrow> nat \<Rightarrow> nat \<Rightarrow> nat \<Rightarrow> event list \<times> RegularGridRenderer \<times> outputs
     \<Rightarrow> event list \<times> nat \<times> RegularGridRenderer \<times> outputs" where
  "render_loop chunk pixels offset index acc =
     (if 0 < chunk \<and> offset < pixels
      then (let r = enqueueKernel (1 - index) offset (min chunk (pixels - offset)) (fst (snd acc))
            in render_loop chunk pixels (offset + chunk) (1 - index)
                 (fst acc @ fst r, snd r,
                  extractData index chunk (offset - chunk) (snd (snd acc)) (snd r)))
      else (fst acc, index, fst (snd acc), snd (snd acc)))"
  by pat_completeness auto
termination
  by (relation "measure (\<lambda>(chunk, pixels, offset, index, acc). pixels - offset)") auto

declare render_loop.simps [simp del]

definition frame_parameters :: "real \<Rightarrow> real \<Rightarrow> real \<Rightarrow> real \<Rightarrow> RegularGridRenderer \<Rightarrow> Parameters" where
  "frame_parameters l b view_width view_height s =
     (let rx = rotateAroundZ (rotateAroundY (1, 0, 0) b) (- l);
          ry = rotateAroundZ (0, 1, 0) (- l);
          rz = rotateAroundZ (rotateAroundY (0, 0, 1) b) (- l)
      in \<lparr>rxx = fst rx, rxy = fst (snd rx), rxz = snd (snd rx),
          ryx = fst ry, ryy = fst (snd ry), ryz = snd (snd ry),
          rzx = fst rz, rzy = fst (snd rz), rzz = snd (snd rz),
          pixel_width = fdiv view_width (real_of_int (x_pixel s)),
          pixel_height = fdiv view_height (real_of_int (y_pixel s))\<rparr>)"

text \<open>
  With a negative pixel count the first job has a negative size and the call has no defined
  result.
\<close>

definition render ::
  "real \<Rightarrow> real \<Rightarrow> real \<Rightarrow> real \<Rightarrow> outputs \<Rightarrow> RegularGridRenderer
     \<Rightarrow> failure + (event list \<times> RegularGridRenderer \<times> outputs)" where
  "render l b view_width view_height out s =
     (if chunk_size s = 0 then Inl ChunkSizeZero
      else if x_pixel s * y_pixel s < 0 then Inl NegativeSize
      else
        (let pixels = nat (x_pixel s * y_pixel s);
             r0 = enqueueKernel 0 0 (min (chunk_size s) pixels)
                    (s\<lparr>parameters := Some (frame_parameters l b view_width view_height s)\<rparr>);
             r1 = render_loop (chunk_size s) pixels (chunk_size s) 0 (fst r0, snd r0, out);
             index = fst (snd r1);
             s1 = fst (snd (snd r1))
         in Inr (fst r1, s1,
                 extractData index (pixels mod chunk_size s)
                   (pixels div chunk_size s * chunk_size s) (snd (snd (snd r1))) s1)))"

subsection \<open>renderToBuffer and renderToCube\<close>

definition renderToBuffer ::
  "real \<Rightarrow> real \<Rightarrow> real \<Rightarrow> real \<Rightarrow> 8 word option list \<Rightarrow> RegularGridRenderer
     \<Rightarrow> failure + (event list \<times> RegularGridRenderer \<times> 8 word option list)" where
  "renderToBuffer l b view_width view_height data s =
     (if \<not> hasRenderingSettings s
      then Inr ([Diagnostic ''Cannot call render before calling setRenderingSettings! Returning.''],
                s, data)
      else if displayMode s = AllIntensities
      then Inr ([Diagnostic ''Cannot call render while in the AllIntensities display mode! Returning.''],
                s, data)
      else (case render l b view_width view_height (data, []) s of
              Inl f \<Rightarrow> Inl f
            | Inr r \<Rightarrow> Inr (fst r, fst (snd r), fst (snd (snd r)))))"

text \<open>The coordinate vectors and the data of the cube, in the order of the three loops.\<close>

definition frame_grid :: "real \<Rightarrow> real \<Rightarrow> real \<Rightarrow> real \<Rightarrow> RegularGridRenderer \<Rightarrow> real option list list" where
  "frame_grid l b view_width view_height s =
     (let local_offset_vector =
            rotateAroundY (rotateAroundZ (grid_mid_x s, grid_mid_y s, grid_mid_z s) l) (- b);
          xs = (\<lambda>x. (real x + 0.5 - ox s) * (view_width / real_of_int (x_pixel s))
                      + fst local_offset_vector);
          ys = (\<lambda>y. (real y + 0.5 - oy s) * (view_height / real_of_int (y_pixel s))
                      + fst (snd local_offset_vector));
          lambdas = (\<lambda>k. map_option (\<lambda>v. v + readlambda0 (goftCube s)) (cl_buffer_lambdaval s ! k));
          ny = nat (y_pixel s); nx = nat (x_pixel s); nl = nat (lambda_pixel s)
      in [[Some (xs x). y \<leftarrow> [0..<ny], x \<leftarrow> [0..<nx], k \<leftarrow> [0..<nl]],
          [Some (ys y). y \<leftarrow> [0..<ny], x \<leftarrow> [0..<nx], k \<leftarrow> [0..<nl]]]
         @ (if lambda_pixel s > 1
            then [[lambdas k. y \<leftarrow> [0..<ny], x \<leftarrow> [0..<nx], k \<leftarrow> [0..<nl]]]
            else []))"

definition frame_cube :: "real \<Rightarrow> real \<Rightarrow> real \<Rightarrow> real \<Rightarrow> real option list \<Rightarrow> RegularGridRenderer \<Rightarrow> RenderCube" where
  "frame_cube l b view_width view_height data s =
     \<lparr>rc_goftcube = goftCube s,
      rc_frame = Some
        \<lparr>newgrid = frame_grid l b view_width view_height s,
         newdata = [take (nat (x_pixel s * y_pixel s * lambda_pixel s)) data],
         rendermethod = ''GPURegularGrid'',
         resolution = (x_pixel s, y_pixel s, gridz s, lambda_pixel s, lambda_width s),
         observationtype = (if lambda_pixel s = 1 then Imaging else Spectroscopic),
         angles = (l, b)\<rparr>\<rparr>"

text \<open>
  \<open>store\<close> says that \<^verbatim>\<open>renderCubePointer\<close> is not null; the cube stored through the pointer
  is the third component of the result. The frame buffer is new memory, never written;
  \<^verbatim>\<open>new float[x_pixel*y_pixel*lambda_pixel]\<close> throws when the length is negative, and the arrays
  \<^verbatim>\<open>xs[x_pixel]\<close>, \<^verbatim>\<open>ys[y_pixel]\<close> and \<^verbatim>\<open>lambdas[lambda_pixel]\<close> are undefined when theirs is.
  \<open>renderToCube_body\<close> is the method past its two checks.
\<close>

definition renderToCube_body ::
  "real \<Rightarrow> real \<Rightarrow> real \<Rightarrow> real \<Rightarrow> string \<Rightarrow> bool \<Rightarrow> RegularGridRenderer
     \<Rightarrow> failure + (event list \<times> RegularGridRenderer \<times> RenderCube option)" where
  "renderToCube_body l b view_width view_height fileName store s =
     (let tmpDisplayMode = displayMode s;
          r0 = (if tmpDisplayMode \<noteq> AllIntensities then setDisplayMode AllIntensities s
                else ([], s));
          data = replicate (nat (x_pixel s * y_pixel s * lambda_pixel s)) None
      in if x_pixel s * y_pixel s * lambda_pixel s < 0 then Inl NegativeSize
         else case render l b view_width view_height ([], data) (snd r0) of
           Inl f \<Rightarrow> Inl f
         | Inr r \<Rightarrow>
             if x_pixel s < 0 \<or> y_pixel s < 0 \<or> lambda_pixel s < 0 then Inl NegativeSize
             else if lambda_pixel s = 1 \<and> 0 < x_pixel s \<and> 0 < y_pixel s then Inl IndexPastEnd
             else
               (let s1 = fst (snd r);
                    renderCube = frame_cube l b view_width view_height (snd (snd (snd r))) s1;
                    r2 = (if tmpDisplayMode \<noteq> AllIntensities then setDisplayMode tmpDisplayMode s1
                          else ([], s1))
                in Inr (fst r0
                        @ [Timing ''Finished allocating frame buffer in '']
                        @ fst r
                        @ [Timing ''Finished rendering frame in '',
                           Timing ''Finished initializing RenderCube in '',
                           Timing ''Finished extracting data in '',
                           Timing ''Finished constructing RenderCube in '']
                        @ (if fileName \<noteq> []
                           then [WriteGoftCube fileName renderCube,
                                 Timing ''Finished writing RenderCube to file in '']
                           else [])
                        @ (if store then [Timing ''Finished copying RenderCube in ''] else [])
                        @ fst r2,
                        snd r2,
                        if store then Some renderCube else None)))"

definition renderToCube ::
  "real \<Rightarrow> real \<Rightarrow> real \<Rightarrow> real \<Rightarrow> string \<Rightarrow> bool \<Rightarrow> RegularGridRenderer
     \<Rightarrow> failure + (event list \<times> RegularGridRenderer \<times> RenderCube option)" where
  "renderToCube l b view_width view_height fileName store s =
     (if fileName = [] \<and> \<not> store then Inr ([], s, None)
      else if \<not> hasRenderingSettings s
      then Inr ([Diagnostic ''Cannot call renderToFile before calling setRenderingSettings! Returning.''],
                s, None)
      else renderToCube_body l b view_width view_height fileName store s)"

subsection \<open>RenderWithGPURegularGrid\<close>

text \<open>
  \<^verbatim>\<open>2*std::max((maxx-minx)/(x_pixel-1),(maxy-miny)/(y_pixel-1))/.3\<close>: not a finite number
  when one of the two divisors is 0.
\<close>

definition maxdistance :: "real \<Rightarrow> real \<Rightarrow> real \<Rightarrow> real \<Rightarrow> int \<Rightarrow> int \<Rightarrow> real option" where
  "maxdistance minx' maxx' miny' maxy' x_pixel' y_pixel' =
     (case (fdiv (maxx' - minx') (real_of_int (x_pixel' - 1)),
            fdiv (maxy' - miny') (real_of_int (y_pixel' - 1))) of
        (Some dx, Some dy) \<Rightarrow> Some (2 * max dx dy / 0.3)
      | _ \<Rightarrow> None)"

text \<open>\<^verbatim>\<open>std::setfill('0') << std::setw(3)\<close>: padded on the left to three characters.\<close>

definition setw3 :: "string \<Rightarrow> string" where
  "setw3 t = replicate (3 - length t) (CHR ''0'') @ t"

definition frame_file_name :: "Externals \<Rightarrow> string \<Rightarrow> real \<Rightarrow> real \<Rightarrow> string" where
  "frame_file_name ext outfile l b =
     outfile @ ''l'' @ setw3 (ext_show_double ext (std_round (l / pi * 180)))
       @ ''b'' @ setw3 (ext_show_double ext (std_round (b / pi * 180))) @ ''.txt''"

text \<open>
  The inner loop over \<open>bvec\<close> from the element it has reached, for one \<open>l\<close>; \<open>last_l\<close> says
  that \<open>l\<close> is the last element of \<open>lvec\<close>. The events so far, the renderer and the cube that
  will be returned are carried along.
\<close>

fun sweep_b ::
  "Externals \<Rightarrow> string \<Rightarrow> real \<Rightarrow> real \<Rightarrow> real \<Rightarrow> bool \<Rightarrow> real list
     \<Rightarrow> event list \<times> RegularGridRenderer \<times> RenderCube
     \<Rightarrow> failure + (event list \<times> RegularGridRenderer \<times> RenderCube)" where
  "sweep_b ext outfile view_width view_height l last_l [] acc = Inr acc"
| "sweep_b ext outfile view_width view_height l last_l (b # bs) acc =
     (case renderToCube l b view_width view_height
             (if outfile = [] then [] else frame_file_name ext outfile l b)
             (last_l \<and> bs = []) (fst (snd acc)) of
        Inl f \<Rightarrow> Inl f
      | Inr r \<Rightarrow>
          sweep_b ext outfile view_width view_height l last_l bs
            (fst acc @ fst r, fst (snd r),
             (case snd (snd r) of None \<Rightarrow> snd (snd acc) | Some c \<Rightarrow> c)))"

fun sweep_l ::
  "Externals \<Rightarrow> string \<Rightarrow> real \<Rightarrow> real \<Rightarrow> real list \<Rightarrow> real list
     \<Rightarrow> event list \<times> RegularGridRenderer \<times> RenderCube
     \<Rightarrow> failure + (event list \<times> RegularGridRenderer \<times> RenderCube)" where
  "sweep_l ext outfile view_width view_height [] bvec acc = Inr acc"
| "sweep_l ext outfile view_width view_height (l # ls) bvec acc =
     (case sweep_b ext outfile view_width view_height l (ls = []) bvec acc of
        Inl f \<Rightarrow> Inl f
      | Inr acc' \<Rightarrow> sweep_l ext outfile view_width view_height ls bvec acc')"

text \<open>
  When \<open>maxdistance\<close> is not a finite number, \<open>x_pixel\<close> or \<open>y_pixel\<close> is 1, hence every cell
  of the grid has a NaN for a coordinate and no query returns a value, whatever the
  distances: the model passes 0 there (see \<open>constructRegularGrid_one_column\<close>).
\<close>

definition RenderWithGPURegularGrid ::
  "Externals \<Rightarrow> GoftCube \<Rightarrow> int \<Rightarrow> int \<Rightarrow> int \<Rightarrow> int \<Rightarrow> real \<Rightarrow> real list \<Rightarrow> real list \<Rightarrow> string
     \<Rightarrow> failure + (event list \<times> RenderCube)" where
  "RenderWithGPURegularGrid ext goftcube x_pixel' y_pixel' z_pixel' lambda_pixel' lambda_width'
       lvec bvec outfile =
     (case new_RegularGridRenderer ext goftcube of
        Inl f \<Rightarrow> Inl f
      | Inr n \<Rightarrow>
          (let renderer = snd n;
               d = (case maxdistance (minx renderer) (maxx renderer) (miny renderer) (maxy renderer)
                           x_pixel' y_pixel' of
                      None \<Rightarrow> 0
                    | Some v \<Rightarrow> v);
               r1 = constructRegularGrid x_pixel' y_pixel' z_pixel' d d d renderer;
               r2 = setRenderingSettings x_pixel' y_pixel' lambda_pixel' lambda_width'
                      AllIntensities (ext_max_intensity ext) (snd r1)
           in case sweep_l ext outfile (maxx renderer - minx renderer) (maxy renderer - miny renderer)
                     lvec bvec (fst n @ fst r1 @ fst r2, snd r2, RenderCube_of goftcube) of
                Inl f \<Rightarrow> Inl f
              | Inr acc \<Rightarrow> Inr (fst acc, snd (snd acc))))"

subsection \<open>Histories of calls\<close>

text \<open>The public methods as calls, and a renderer driven through a list of them.\<close>

datatype call =
    ConstructRegularGrid int int int real real real
  | SetRenderingSettings int int int real DisplayMode real
  | RenderToBuffer real real real real "8 word option list"
  | RenderToCube real real real real string bool

fun do_call :: "call \<Rightarrow> RegularGridRenderer \<Rightarrow> failure + (event list \<times> RegularGridRenderer)" where
  "do_call (ConstructRegularGrid gx gy gz dx dy dz) s = Inr (constructRegularGrid gx gy gz dx dy dz s)"
| "do_call (SetRenderingSettings xp yp lp lw m mi) s = Inr (setRenderingSettings xp yp lp lw m mi s)"
| "do_call (RenderToBuffer l b w h data) s =
     (case renderToBuffer l b w h data s of
        Inl f \<Rightarrow> Inl f
      | Inr r \<Rightarrow> Inr (fst r, fst (snd r)))"
| "do_call (RenderToCube l b w h fileName store) s =
     (case renderToCube l b w h fileName store s of
        Inl f \<Rightarrow> Inl f
      | Inr r \<Rightarrow> Inr (fst r, fst (snd r)))"

fun run :: "call list \<Rightarrow> RegularGridRenderer \<Rightarrow> failure + (event list \<times> RegularGridRenderer)" where
  "run [] s = Inr ([], s)"
| "run (c # cs) s =
     (case do_call c s of
        Inl f \<Rightarrow> Inl f
      | Inr r \<Rightarrow>
          (case run cs (snd r) of
             Inl f \<Rightarrow> Inl f
           | Inr r' \<Rightarrow> Inr (fst r @ fst r', snd r')))"

fun is_construct :: "call \<Rightarrow> bool" where
  "is_construct (ConstructRegularGrid gx gy gz dx dy dz) = True"
| "is_construct _ = False"

fun is_settings :: "call \<Rightarrow> bool" where
  "is_settings (SetRenderingSettings xp yp lp lw m mi) = True"
| "is_settings _ = False"

fun is_enqueue :: "event \<Rightarrow> bool" where
  "is_enqueue (EnqueueKernel index offset n) = True"
| "is_enqueue _ = False"

section \<open>The properties, in the words of the spec\<close>

text \<open>
  The rendering mode is configured after a history of calls when some call of
  \<^verbatim>\<open>setRenderingSettings\<close> in it comes after a call of \<^verbatim>\<open>constructRegularGrid\<close> and no
  call of \<^verbatim>\<open>constructRegularGrid\<close> comes after it.
\<close>

definition configured :: "call list \<Rightarrow> bool" where
  "configured cs =
     (\<exists>pre t post. cs = pre @ t # post \<and> is_settings t
        \<and> list_ex is_construct pre \<and> list_all (\<lambda>c. \<not> is_construct c) post)"

text \<open>
  A call is skipped when it returns, leaves the renderer as it was and has put no kernel
  in a queue.
\<close>

definition skipped :: "failure + (event list \<times> RegularGridRenderer) \<Rightarrow> RegularGridRenderer \<Rightarrow> bool" where
  "skipped r s = (case r of Inl f \<Rightarrow> False | Inr x \<Rightarrow> snd x = s \<and> \<not> list_ex is_enqueue (fst x))"

section \<open>What a run has done, read off its events\<close>

text \<open>
  \<^verbatim>\<open>renderToCube\<close> prints the line "Finished rendering frame in" once after each call of
  \<^verbatim>\<open>render\<close>, the constructor builds the R-tree once, \<^verbatim>\<open>constructRegularGrid\<close> prints the
  coverage line once, and each file written is an event of its own.
\<close>

definition frames_rendered :: "event list \<Rightarrow> nat" where
  "frames_rendered evs = length (filter (\<lambda>e. e = Timing ''Finished rendering frame in '') evs)"

fun written :: "event \<Rightarrow> (string \<times> RenderCube) list" where
  "written (WriteGoftCube fileName c) = [(fileName, c)]"
| "written _ = []"

definition files_written :: "event list \<Rightarrow> (string \<times> RenderCube) list" where
  "files_written evs = concat (map written evs)"

fun is_build :: "event \<Rightarrow> bool" where
  "is_build (BuildRTree n) = True"
| "is_build _ = False"

fun is_coverage :: "event \<Rightarrow> bool" where
  "is_coverage (Coverage n m) = True"
| "is_coverage _ = False"

definition index_builds :: "event list \<Rightarrow> nat" where
  "index_builds evs = length (filter is_build evs)"

definition grid_builds :: "event list \<Rightarrow> nat" where
  "grid_builds evs = length (filter is_coverage evs)"

text \<open>
  A renderer is ready for the frames of a sweep when its rendering settings are there, with
  a positive number of pixels along both axes and at least two wavelength samples, and its
  jobs have a positive size.
\<close>

definition frame_ready :: "RegularGridRenderer \<Rightarrow> bool" where
  "frame_ready s =
     (hasRenderingSettings s \<and> 0 < chunk_size s \<and> 0 < x_pixel s \<and> 0 < y_pixel s
      \<and> 1 < lambda_pixel s)"

text \<open>The angle pair of the frame a cube holds, if it holds one.\<close>

definition cube_angles :: "RenderCube \<Rightarrow> (real \<times> real) option" where
  "cube_angles c = map_option angles (rc_frame c)"

section \<open>The sequential reference of a frame\<close>

text \<open>
  The results of the pixels from \<open>a\<close> up to \<open>b\<close>, evaluated one after the other: for each
  pixel \<open>g\<close> the \<open>stride\<close> values \<open>F g 0\<close>, \<open>F g 1\<close>, ... A whole frame is
  \<open>reference_rows F stride 0 pixels\<close>.
\<close>

definition reference_rows :: "(nat \<Rightarrow> nat \<Rightarrow> 'a) \<Rightarrow> nat \<Rightarrow> nat \<Rightarrow> nat \<Rightarrow> 'a option list" where
  "reference_rows F stride a b = concat (map (\<lambda>g. map (\<lambda>k. Some (F g k)) [0..<stride]) [a..<b])"

section \<open>The cells in the order of the loops\<close>

text \<open>
  The cells \<open>(i, j, k)\<close> in the order in which the three loops of \<^verbatim>\<open>constructRegularGrid\<close>
  visit them, and what the loop body writes for a cell: the index, the eight floats of the
  point and the emissivity.
\<close>

definition cells :: "nat \<Rightarrow> nat \<Rightarrow> nat \<Rightarrow> (nat \<times> nat \<times> nat) list" where
  "cells ny nx nz = [(i, j, k). i \<leftarrow> [0..<ny], j \<leftarrow> [0..<nx], k \<leftarrow> [0..<nz]]"

definition cell_written ::
  "RegularGridRenderer \<Rightarrow> int \<Rightarrow> int \<Rightarrow> int \<Rightarrow> real \<Rightarrow> real \<Rightarrow> real \<Rightarrow> nat \<times> nat \<times> nat
     \<Rightarrow> nat \<times> real list \<times> real" where
  "cell_written s gridx' gridy' gridz' dx dy dz c =
     (let i = fst c; j = fst (snd c); k = snd (snd c);
          returnedValues = cell_query s gridx' gridy' gridz' dx dy dz i j k
      in (cell_index gridx' gridz' i j k,
          if length returnedValues \<ge> 1
          then (found_point (goftCube s) (snd (returnedValues ! 0)),
                found_emissivity (goftCube s) (snd (returnedValues ! 0)))
          else (default_point, 0)))"

section \<open>A concrete input\<close>

text \<open>
  Two source points, \<open>(0, 1, 0)\<close> and \<open>(1, 0, 0)\<close>, with their five physical variables, and
  the externals: jobs of two pixels, one byte for a pixel, a kernel that returns the global
  id of the work item, and integral doubles printed as on a stream in its default format,
  which for an absolute value below \<open>10\<^sup>6\<close> is the sign, if the sign bit is set, and the
  decimal digits.
\<close>

definition example_goftcube :: GoftCube where
  "example_goftcube =
     \<lparr>readgrid = [[0, 1], [1, 0], [0, 0]],
      readngrid = 2,
      readdim = 3,
      readvar = (\<lambda>i. [[3, 5], [2, 4], [7, 11], [13, 17], [19, 23]] ! i),
      readlambda0 = 171\<rparr>"

function show_nat :: "nat \<Rightarrow> string" where
  "show_nat n =
     (if n < 10 then [char_of (48 + n)] else show_nat (n div 10) @ [char_of (48 + n mod 10)])"
  by pat_completeness auto
termination
  by (relation "measure (\<lambda>n. n)") auto

declare show_nat.simps [simp del]

definition show_integral :: "bool \<times> nat \<Rightarrow> string" where
  "show_integral v = (if fst v then ''-'' else []) @ show_nat (snd v)"

definition example_externals :: Externals where
  "example_externals =
     \<lparr>ext_chunk_size = 2,
      ext_bytes_per_pixel = 1,
      ext_max_intensity = 1,
      ext_kernel = \<lparr>ray_floats = (\<lambda>env g k. real g), ray_bytes = (\<lambda>env g k. of_nat g)\<rparr>,
      ext_show_double = show_integral\<rparr>"

text \<open>
  The renderer made from this input, the same after \<^verbatim>\<open>constructRegularGrid(2, 2, 1, 0.5, 0.5, 0.5)\<close>,
  and after \<^verbatim>\<open>setRenderingSettings(2, 2, 2, 1, AllIntensities, 1)\<close> on top of that.
\<close>

definition example_renderer :: RegularGridRenderer where
  "example_renderer = snd (projr (new_RegularGridRenderer example_externals example_goftcube))"

definition example_grid_renderer :: RegularGridRenderer where
  "example_grid_renderer = snd (constructRegularGrid 2 2 1 0.5 0.5 0.5 example_renderer)"

definition example_ready_renderer :: RegularGridRenderer where
  "example_ready_renderer = snd (setRenderingSettings 2 2 2 1 AllIntensities 1 example_grid_renderer)"

text \<open>The same two points at heights 0 and 4, declared two-dimensional, and their renderer.\<close>

definition example_flat_goftcube :: GoftCube where
  "example_flat_goftcube = example_goftcube\<lparr>readgrid := [[0, 1], [1, 0], [0, 4]], readdim := 2\<rparr>"

definition example_flat_renderer :: RegularGridRenderer where
  "example_flat_renderer =
     snd (projr (new_RegularGridRenderer example_externals example_flat_goftcube))"

text \<open>
  Two source points on the diagonal, \<open>(0, 0, 0)\<close> and \<open>(1, 1, 0)\<close>, with the same physical
  variables, and their renderer: of the four cells of a grid of 2 by 2 by 1, cell 0 lies on
  the first point and cell 3 on the second.
\<close>

definition example_diagonal_goftcube :: GoftCube where
  "example_diagonal_goftcube = example_goftcube\<lparr>readgrid := [[0, 1], [0, 1], [0, 0]]\<rparr>"

definition example_diagonal_renderer :: RegularGridRenderer where
  "example_diagonal_renderer =
     snd (projr (new_RegularGridRenderer example_externals example_diagonal_goftcube))"

text \<open>
  The renderer of the example built with another \<open>chunk_size\<close>, with the same grid and the
  same settings: 2 by 2 pixels, 2 wavelength samples, mode AllIntensities.
\<close>

definition example_ready_chunk :: "nat \<Rightarrow> RegularGridRenderer" where
  "example_ready_chunk c =
     snd (setRenderingSettings 2 2 2 1 AllIntensities 1
       (snd (constructRegularGrid 2 2 1 0.5 0.5 0.5
         (snd (projr (new_RegularGridRenderer (example_externals\<lparr>ext_chunk_size := c\<rparr>)
                        example_goftcube))))))"

section \<open>The rotations\<close>

lemma sin_cos_squared_mult: "sin a * (sin a * (x::real)) + cos a * (cos a * x) = x"
proof -
  have "sin a * (sin a * x) + cos a * (cos a * x) = ((sin a)\<^sup>2 + (cos a)\<^sup>2) * x"
    unfolding power2_eq_square distrib_right by (simp add: mult.assoc)
  then show ?thesis by simp
qed

text \<open>
  C9. Rotating a vector by an angle and then by the opposite angle about the same axis gives
  the vector back, for both rotations (over the reals); the rotation about Z leaves the z
  component unchanged and the rotation about Y leaves the y component unchanged.
\<close>

theorem rotate_round_trip:
  "rotateAroundZ (rotateAroundZ v \<theta>) (- \<theta>) = v
   \<and> rotateAroundY (rotateAroundY v \<theta>) (- \<theta>) = v
   \<and> snd (snd (rotateAroundZ v \<theta>)) = snd (snd v)
   \<and> fst (snd (rotateAroundY v \<theta>)) = fst (snd v)"
proof -
  obtain x y z where v: "v = (x, y, z)" by (cases v) auto
  have a: "cos \<theta> * (cos \<theta> * x - sin \<theta> * y) + sin \<theta> * (sin \<theta> * x + cos \<theta> * y) = x"
    using sin_cos_squared_mult [of \<theta> x] by (simp add: algebra_simps)
  have b: "cos \<theta> * (sin \<theta> * x + cos \<theta> * y) - sin \<theta> * (cos \<theta> * x - sin \<theta> * y) = y"
    using sin_cos_squared_mult [of \<theta> y] by (simp add: algebra_simps)
  have c: "cos \<theta> * (cos \<theta> * x + sin \<theta> * z) - sin \<theta> * (cos \<theta> * z - sin \<theta> * x) = x"
    using sin_cos_squared_mult [of \<theta> x] by (simp add: algebra_simps)
  have d: "sin \<theta> * (cos \<theta> * x + sin \<theta> * z) + cos \<theta> * (cos \<theta> * z - sin \<theta> * x) = z"
    using sin_cos_squared_mult [of \<theta> z] by (simp add: algebra_simps)
  show ?thesis
    using a b c d by (simp add: v Let_def)
qed

section \<open>The state machine of the renderer\<close>

lemma enqueueKernel_flags:
  "hasRegularGrid (snd (enqueueKernel i off n s)) = hasRegularGrid s"
  "hasRenderingSettings (snd (enqueueKernel i off n s)) = hasRenderingSettings s"
  by (simp_all add: enqueueKernel_def split: option.splits)

lemma render_loop_step:
  "0 < chunk \<Longrightarrow> offset < pixels \<Longrightarrow>
   render_loop chunk pixels offset index acc =
     render_loop chunk pixels (offset + chunk) (1 - index)
       (fst acc @ fst (enqueueKernel (1 - index) offset (min chunk (pixels - offset)) (fst (snd acc))),
        snd (enqueueKernel (1 - index) offset (min chunk (pixels - offset)) (fst (snd acc))),
        extractData index chunk (offset - chunk) (snd (snd acc))
          (snd (enqueueKernel (1 - index) offset (min chunk (pixels - offset)) (fst (snd acc)))))"
  by (subst render_loop.simps) (simp add: Let_def)

lemma render_loop_stop:
  "\<not> (0 < chunk \<and> offset < pixels) \<Longrightarrow>
   render_loop chunk pixels offset index acc = (fst acc, index, fst (snd acc), snd (snd acc))"
  by (subst render_loop.simps) auto

lemma render_loop_flags:
  "hasRegularGrid (fst (snd (snd (render_loop c p off i acc)))) = hasRegularGrid (fst (snd acc))
   \<and> hasRenderingSettings (fst (snd (snd (render_loop c p off i acc)))) = hasRenderingSettings (fst (snd acc))"
proof (induction c p off i acc rule: render_loop.induct)
  case (1 chunk pixels offset index acc)
  show ?case
  proof (cases "0 < chunk \<and> offset < pixels")
    case True
    then show ?thesis
      using 1 [OF True refl]
      by (simp add: render_loop_step enqueueKernel_flags)
  next
    case False
    then show ?thesis by (simp only: render_loop_stop fst_conv snd_conv simp_thms)
  qed
qed

lemma render_flags:
  assumes "render l b w h out s = Inr r"
  shows "hasRegularGrid (fst (snd r)) = hasRegularGrid s"
    and "hasRenderingSettings (fst (snd r)) = hasRenderingSettings s"
  using assms
  by (auto simp: render_def Let_def render_loop_flags enqueueKernel_flags split: if_splits)

lemma setDisplayMode_flags:
  "hasRegularGrid (snd (setDisplayMode m s)) = hasRegularGrid s"
  "hasRenderingSettings (snd (setDisplayMode m s)) = hasRenderingSettings s"
  by (simp_all add: setDisplayMode_def)

lemma renderToCube_body_flags:
  assumes "renderToCube_body l b w h fileName store s = Inr r"
  shows "hasRegularGrid (fst (snd r)) = hasRegularGrid s
         \<and> hasRenderingSettings (fst (snd r)) = hasRenderingSettings s"
proof -
  define s0 where "s0 = snd (if displayMode s \<noteq> AllIntensities then setDisplayMode AllIntensities s else ([], s))"
  have f0: "hasRegularGrid s0 = hasRegularGrid s" "hasRenderingSettings s0 = hasRenderingSettings s"
    by (simp_all add: s0_def setDisplayMode_flags)
  obtain q where q: "render l b w h ([], replicate (nat (x_pixel s * y_pixel s * lambda_pixel s)) None) s0 = Inr q"
    using assms by (auto simp: renderToCube_body_def Let_def s0_def split: sum.splits if_splits)
  have r: "fst (snd r) = snd (if displayMode s \<noteq> AllIntensities then setDisplayMode (displayMode s) (fst (snd q)) else ([], fst (snd q)))"
    using assms q unfolding renderToCube_body_def Let_def s0_def [symmetric]
    by (auto split: if_splits)
  show ?thesis
    using render_flags [OF q] f0 by (simp add: r setDisplayMode_flags)
qed

lemma renderToCube_flags:
  assumes "renderToCube l b w h fileName store s = Inr r"
  shows "hasRegularGrid (fst (snd r)) = hasRegularGrid s
         \<and> hasRenderingSettings (fst (snd r)) = hasRenderingSettings s"
  using assms renderToCube_body_flags [of l b w h fileName store s r]
  by (auto simp: renderToCube_def split: if_splits)

lemma renderToBuffer_flags:
  assumes "renderToBuffer l b w h data s = Inr r"
  shows "hasRegularGrid (fst (snd r)) = hasRegularGrid s
         \<and> hasRenderingSettings (fst (snd r)) = hasRenderingSettings s"
  using assms
  by (auto simp: renderToBuffer_def split: if_splits sum.splits dest: render_flags)

lemma constructRegularGrid_flags:
  "hasRegularGrid (snd (constructRegularGrid gx gy gz dx dy dz s))"
  "\<not> hasRenderingSettings (snd (constructRegularGrid gx gy gz dx dy dz s))"
  by (simp_all add: constructRegularGrid_def Let_def)

lemma setRenderingSettings_flags:
  "hasRegularGrid (snd (setRenderingSettings xp yp lp lw m mi s)) = hasRegularGrid s"
  "hasRenderingSettings (snd (setRenderingSettings xp yp lp lw m mi s))
     = (hasRegularGrid s \<or> hasRenderingSettings s)"
  by (simp_all add: setRenderingSettings_def Let_def setDisplayMode_flags)

lemma do_call_flags:
  assumes "do_call c s = Inr r"
  shows "hasRegularGrid (snd r) = (is_construct c \<or> hasRegularGrid s)"
    and "hasRenderingSettings (snd r) =
           (if is_construct c then False
            else if is_settings c then hasRegularGrid s \<or> hasRenderingSettings s
            else hasRenderingSettings s)"
  using assms
  by (cases c; auto simp: constructRegularGrid_flags setRenderingSettings_flags
        split: sum.splits dest: renderToBuffer_flags renderToCube_flags)+

lemma run_snoc:
  "run (cs @ [c]) s =
     (case run cs s of
        Inl f \<Rightarrow> Inl f
      | Inr r \<Rightarrow>
          (case do_call c (snd r) of
             Inl f \<Rightarrow> Inl f
           | Inr r' \<Rightarrow> Inr (fst r @ fst r', snd r')))"
  by (induction cs arbitrary: s) (auto split: sum.splits)

lemma configured_Nil: "\<not> configured []"
  by (simp add: configured_def)

lemma configured_imp_construct: "configured cs \<Longrightarrow> list_ex is_construct cs"
  by (auto simp: configured_def list_ex_iff)

lemma configured_snoc:
  "configured (cs @ [c]) =
     ((is_settings c \<and> list_ex is_construct cs) \<or> (\<not> is_construct c \<and> configured cs))"
proof
  assume "configured (cs @ [c])"
  then obtain pre t post where d: "cs @ [c] = pre @ t # post" "is_settings t"
      "list_ex is_construct pre" "list_all (\<lambda>c. \<not> is_construct c) post"
    by (auto simp: configured_def)
  show "(is_settings c \<and> list_ex is_construct cs) \<or> (\<not> is_construct c \<and> configured cs)"
  proof (cases post rule: rev_cases)
    case Nil
    then show ?thesis using d by simp
  next
    case (snoc post' x)
    then have "cs = pre @ t # post'" "x = c" using d(1) by simp_all
    then show ?thesis using d snoc by (auto simp: configured_def)
  qed
next
  assume a: "(is_settings c \<and> list_ex is_construct cs) \<or> (\<not> is_construct c \<and> configured cs)"
  show "configured (cs @ [c])"
  proof (cases "is_settings c \<and> list_ex is_construct cs")
    case True
    then have "cs @ [c] = cs @ c # [] \<and> is_settings c \<and> list_ex is_construct cs
               \<and> list_all (\<lambda>c. \<not> is_construct c) []" by simp
    then show ?thesis unfolding configured_def by blast
  next
    case False
    then have nc: "\<not> is_construct c" and "configured cs" using a by auto
    then obtain pre t post where d: "cs = pre @ t # post" "is_settings t"
      "list_ex is_construct pre" "list_all (\<lambda>c. \<not> is_construct c) post"
      by (auto simp: configured_def)
    then have "cs @ [c] = pre @ t # (post @ [c]) \<and> is_settings t \<and> list_ex is_construct pre
               \<and> list_all (\<lambda>c. \<not> is_construct c) (post @ [c])" using nc by simp
    then show ?thesis unfolding configured_def by blast
  qed
qed

lemma construct_not_settings: "is_construct c \<Longrightarrow> \<not> is_settings c"
  by (cases c) simp_all

lemma run_flags:
  assumes "\<not> hasRegularGrid s0" "\<not> hasRenderingSettings s0"
  shows "run cs s0 = Inr r \<Longrightarrow>
         hasRegularGrid (snd r) = list_ex is_construct cs
         \<and> hasRenderingSettings (snd r) = configured cs"
proof (induction cs arbitrary: r rule: rev_induct)
  case Nil
  then show ?case using assms by (auto simp: configured_Nil)
next
  case (snoc c cs)
  from snoc.prems obtain q q' where q: "run cs s0 = Inr q" and q': "do_call c (snd q) = Inr q'"
    and r: "r = (fst q @ fst q', snd q')"
    by (auto simp: run_snoc split: sum.splits)
  have ih: "hasRegularGrid (snd q) = list_ex is_construct cs"
    "hasRenderingSettings (snd q) = configured cs"
    using snoc.IH [OF q] by simp_all
  show ?case
    using do_call_flags [OF q'] ih configured_imp_construct [of cs]
      construct_not_settings [of c]
    by (auto simp: r configured_snoc)
qed

lemma new_RegularGridRenderer_flags:
  assumes "new_RegularGridRenderer ext g = Inr n"
  shows "\<not> hasRegularGrid (snd n)" "\<not> hasRenderingSettings (snd n)"
  using assms
  by (auto simp: new_RegularGridRenderer_def split: option.splits prod.splits if_splits)

lemma example_new:
  "new_RegularGridRenderer example_externals example_goftcube
     = Inr (fst (projr (new_RegularGridRenderer example_externals example_goftcube)), example_renderer)"
  by (simp add: new_RegularGridRenderer_def example_goftcube_def min_element_def max_element_def
      example_renderer_def)

lemma example_renderer_bounds:
  "minx example_renderer = 0" "maxx example_renderer = 1"
  "miny example_renderer = 0" "maxy example_renderer = 1"
  "minz example_renderer = 0" "maxz example_renderer = 0"
  by (simp_all add: new_RegularGridRenderer_def example_goftcube_def min_element_def
      max_element_def example_renderer_def)

lemma example_renderer_constants:
  "chunk_size example_renderer = 2" "bytes_per_pixel example_renderer = 1"
  "goftCube example_renderer = example_goftcube"
  "kernel_source example_renderer = ext_kernel example_externals"
  by (simp_all add: new_RegularGridRenderer_def example_goftcube_def min_element_def
      max_element_def example_renderer_def example_externals_def)

text \<open>
  C10. In every state of the renderer, a call of \<^verbatim>\<open>renderToCube\<close> with an empty file name and
  a null cube pointer returns at once: nothing is printed or queued, the renderer is unchanged
  and no cube is stored. The state is arbitrary, so the call returns in this way also when
  no rendering settings are present: the check for them is never reached.
\<close>

theorem renderToCube_without_output:
  "renderToCube l b view_width view_height [] False s = Inr ([], s, None)"
  by (simp add: renderToCube_def)

text \<open>
  C7. After any history of calls on a new renderer: \<^verbatim>\<open>setRenderingSettings\<close> called when
  \<^verbatim>\<open>constructRegularGrid\<close> has not been called, and \<^verbatim>\<open>renderToBuffer\<close> called when
  \<^verbatim>\<open>setRenderingSettings\<close> has not been called or while the display mode is AllIntensities,
  print one diagnostic line and return with the renderer (and the caller's buffer) unchanged.
\<close>

theorem sequencing_violation_is_skipped:
  assumes "new_RegularGridRenderer ext g = Inr n" and "run cs (snd n) = Inr r"
  shows "(\<not> list_ex is_construct cs \<longrightarrow>
            setRenderingSettings xp yp lp lw m mi (snd r) =
              ([Diagnostic ''Cannot call setRenderingSettings before calling constructRegularGrid! Returning.''],
               snd r))
         \<and> (\<not> list_ex is_settings cs \<longrightarrow>
              renderToBuffer l b w h data (snd r) =
                Inr ([Diagnostic ''Cannot call render before calling setRenderingSettings! Returning.''],
                     snd r, data))
         \<and> (hasRenderingSettings (snd r) \<and> displayMode (snd r) = AllIntensities \<longrightarrow>
              renderToBuffer l b w h data (snd r) =
                Inr ([Diagnostic ''Cannot call render while in the AllIntensities display mode! Returning.''],
                     snd r, data))"
proof -
  have f: "hasRegularGrid (snd r) = list_ex is_construct cs"
    "hasRenderingSettings (snd r) = configured cs"
    using run_flags [OF new_RegularGridRenderer_flags [OF assms(1)] assms(2)] by simp_all
  have c: "configured cs \<Longrightarrow> list_ex is_settings cs"
    by (auto simp: configured_def list_ex_iff)
  show ?thesis
    using f c by (auto simp: setRenderingSettings_def renderToBuffer_def)
qed

theorem sequencing_violation_is_skipped_witness:
  "run [] example_renderer = Inr ([], example_renderer)
   \<and> run [ConstructRegularGrid 2 2 1 0.5 0.5 0.5,
           SetRenderingSettings 2 2 2 1 AllIntensities 1] example_renderer
       = Inr (fst (constructRegularGrid 2 2 1 0.5 0.5 0.5 example_renderer)
              @ fst (setRenderingSettings 2 2 2 1 AllIntensities 1 example_grid_renderer),
              example_ready_renderer)
   \<and> \<not> list_ex is_construct [] \<and> \<not> list_ex is_settings []
   \<and> setRenderingSettings 2 2 2 1 AllIntensities 1 example_renderer =
       ([Diagnostic ''Cannot call setRenderingSettings before calling constructRegularGrid! Returning.''],
        example_renderer)
   \<and> renderToBuffer 0 0 1 1 [] example_renderer =
       Inr ([Diagnostic ''Cannot call render before calling setRenderingSettings! Returning.''],
            example_renderer, [])
   \<and> hasRenderingSettings example_ready_renderer
   \<and> displayMode example_ready_renderer = AllIntensities
   \<and> renderToBuffer 0 0 1 1 [] example_ready_renderer =
       Inr ([Diagnostic ''Cannot call render while in the AllIntensities display mode! Returning.''],
            example_ready_renderer, [])"
proof -
  have r0: "run [] (snd (fst (projr (new_RegularGridRenderer example_externals example_goftcube)),
                         example_renderer)) = Inr ([], example_renderer)"
    by simp
  have r1: "run [ConstructRegularGrid 2 2 1 0.5 0.5 0.5,
                 SetRenderingSettings 2 2 2 1 AllIntensities 1]
              (snd (fst (projr (new_RegularGridRenderer example_externals example_goftcube)),
                    example_renderer))
            = Inr (fst (constructRegularGrid 2 2 1 0.5 0.5 0.5 example_renderer)
                   @ fst (setRenderingSettings 2 2 2 1 AllIntensities 1 example_grid_renderer),
                   example_ready_renderer)"
    by (simp add: example_grid_renderer_def example_ready_renderer_def)
  have h1: "hasRenderingSettings example_ready_renderer"
    by (simp add: example_ready_renderer_def example_grid_renderer_def
        setRenderingSettings_flags constructRegularGrid_flags)
  have h2: "displayMode example_ready_renderer = AllIntensities"
    by (simp add: example_ready_renderer_def example_grid_renderer_def setRenderingSettings_def
        constructRegularGrid_flags Let_def setDisplayMode_def)
  show ?thesis
    using sequencing_violation_is_skipped [OF example_new r0, of 2 2 2 1 AllIntensities 1 0 0 1 1 "[]"]
      sequencing_violation_is_skipped [OF example_new r1, of 2 2 2 1 AllIntensities 1 0 0 1 1 "[]"]
      r0 r1 h1 h2
    by simp
qed

text \<open>
  C8. After any history of calls on a new renderer, \<^verbatim>\<open>constructRegularGrid\<close> leaves the
  renderer without rendering settings, and unless \<^verbatim>\<open>setRenderingSettings\<close> has been called
  after the most recent \<^verbatim>\<open>constructRegularGrid\<close>, both \<^verbatim>\<open>renderToBuffer\<close> and
  \<^verbatim>\<open>renderToCube\<close> are skipped: they return, change nothing and queue no kernel.
\<close>

theorem render_needs_settings_after_grid:
  assumes "new_RegularGridRenderer ext g = Inr n" and "run cs (snd n) = Inr r"
  shows "\<not> hasRenderingSettings (snd (constructRegularGrid gx gy gz dx dy dz (snd r)))
         \<and> (\<not> configured cs \<longrightarrow>
              skipped (do_call (RenderToBuffer l b w h data) (snd r)) (snd r)
              \<and> skipped (do_call (RenderToCube l b w h fileName store) (snd r)) (snd r))"
proof -
  have f: "hasRenderingSettings (snd r) = configured cs"
    using run_flags [OF new_RegularGridRenderer_flags [OF assms(1)] assms(2)] by simp
  show ?thesis
    using f by (auto simp: constructRegularGrid_flags skipped_def renderToBuffer_def renderToCube_def)
qed

theorem render_needs_settings_after_grid_witness:
  "run [ConstructRegularGrid 2 2 1 0.5 0.5 0.5,
        SetRenderingSettings 2 2 2 1 AllIntensities 1,
        ConstructRegularGrid 2 2 1 0.5 0.5 0.5] example_renderer
     = Inr (fst (constructRegularGrid 2 2 1 0.5 0.5 0.5 example_renderer)
            @ fst (setRenderingSettings 2 2 2 1 AllIntensities 1 example_grid_renderer)
            @ fst (constructRegularGrid 2 2 1 0.5 0.5 0.5 example_ready_renderer),
            snd (constructRegularGrid 2 2 1 0.5 0.5 0.5 example_ready_renderer))
   \<and> \<not> configured [ConstructRegularGrid 2 2 1 0.5 0.5 0.5,
                     SetRenderingSettings 2 2 2 1 AllIntensities 1,
                     ConstructRegularGrid 2 2 1 0.5 0.5 0.5]
   \<and> skipped (do_call (RenderToBuffer 0 0 1 1 [])
                (snd (constructRegularGrid 2 2 1 0.5 0.5 0.5 example_ready_renderer)))
        (snd (constructRegularGrid 2 2 1 0.5 0.5 0.5 example_ready_renderer))
   \<and> skipped (do_call (RenderToCube 0 0 1 1 ''out'' True)
                (snd (constructRegularGrid 2 2 1 0.5 0.5 0.5 example_ready_renderer)))
        (snd (constructRegularGrid 2 2 1 0.5 0.5 0.5 example_ready_renderer))"
proof -
  define cs where "cs = [ConstructRegularGrid 2 2 1 0.5 0.5 0.5,
             SetRenderingSettings 2 2 2 1 AllIntensities 1,
             ConstructRegularGrid 2 2 1 0.5 0.5 0.5]"
  have r: "run cs (snd (fst (projr (new_RegularGridRenderer example_externals example_goftcube)),
                        example_renderer))
     = Inr (fst (constructRegularGrid 2 2 1 0.5 0.5 0.5 example_renderer)
            @ fst (setRenderingSettings 2 2 2 1 AllIntensities 1 example_grid_renderer)
            @ fst (constructRegularGrid 2 2 1 0.5 0.5 0.5 example_ready_renderer),
            snd (constructRegularGrid 2 2 1 0.5 0.5 0.5 example_ready_renderer))"
    by (simp add: cs_def example_grid_renderer_def example_ready_renderer_def)
  have "cs = [ConstructRegularGrid 2 2 1 0.5 0.5 0.5,
              SetRenderingSettings 2 2 2 1 AllIntensities 1]
             @ [ConstructRegularGrid 2 2 1 0.5 0.5 0.5]"
    by (simp add: cs_def)
  then have nc: "\<not> configured cs"
    by (simp only: configured_snoc) simp
  show ?thesis
    using render_needs_settings_after_grid
        [OF example_new r, of 2 2 1 "0.5" "0.5" "0.5" 0 0 1 1 "[]" "''out''" True] r nc
    unfolding cs_def by simp
qed

section \<open>Grid geometry and the distance bound\<close>

lemma example_flat_renderer_bounds:
  "minz example_flat_renderer = 0" "maxz example_flat_renderer = 4"
  "readdim (goftCube example_flat_renderer) = 2"
  by (simp_all add: new_RegularGridRenderer_def example_flat_goftcube_def example_goftcube_def
      min_element_def max_element_def example_flat_renderer_def)

lemma constructRegularGrid_sizes:
  "grid_size_x (snd (constructRegularGrid gx gy gz dx dy dz s)) = grid_size (minx s) (maxx s) gx"
  "grid_size_y (snd (constructRegularGrid gx gy gz dx dy dz s)) = grid_size (miny s) (maxy s) gy"
  "grid_size_z (snd (constructRegularGrid gx gy gz dx dy dz s)) =
     (if readdim (goftCube s) < 3 \<or> gz = 1 then Some 1 else grid_size (minz s) (maxz s) gz)"
  by (simp_all add: constructRegularGrid_def Let_def)

text \<open>
  C4 as stated fails on two inputs. With \<open>gridx = 1\<close> the size along x is the quotient of a
  division by zero, not 1: only the z axis has the test for one cell. With a two-dimensional
  cube the size along z is 1 also for \<open>gridz = 2\<close>, where the formula gives 8.
\<close>

theorem grid_size_counterexample:
  "grid_size_x (snd (constructRegularGrid 1 2 2 1 1 1 example_renderer)) = None
   \<and> grid_size_z (snd (constructRegularGrid 2 2 2 1 1 1 example_flat_renderer)) = Some 1
   \<and> (maxz example_flat_renderer - minz example_flat_renderer) * real_of_int 2 / real_of_int (2 - 1) = 8"
  by (simp add: constructRegularGrid_sizes grid_size_def fdiv_def example_flat_renderer_bounds)

text \<open>
  C4, amended. Along x and along y, for a resolution of at least 2, the size of the grid is
  the extent of the bounding box times \<open>gridN / (gridN - 1)\<close>. Along z the size is 1 when the
  cube has fewer than three dimensions or \<open>gridz = 1\<close>, and the extent times
  \<open>gridz / (gridz - 1)\<close> otherwise.
\<close>

theorem grid_size_per_axis:
  "(2 \<le> gx \<longrightarrow>
      grid_size_x (snd (constructRegularGrid gx gy gz dx dy dz s))
        = Some ((maxx s - minx s) * real_of_int gx / real_of_int (gx - 1)))
   \<and> (2 \<le> gy \<longrightarrow>
      grid_size_y (snd (constructRegularGrid gx gy gz dx dy dz s))
        = Some ((maxy s - miny s) * real_of_int gy / real_of_int (gy - 1)))
   \<and> grid_size_z (snd (constructRegularGrid gx gy gz dx dy dz s))
        = (if readdim (goftCube s) < 3 \<or> gz = 1 then Some 1
           else Some ((maxz s - minz s) * real_of_int gz / real_of_int (gz - 1)))"
  by (simp add: constructRegularGrid_sizes grid_size_def fdiv_def)

theorem grid_size_per_axis_witness:
  "(2::int) \<le> 2
   \<and> grid_size_x (snd (constructRegularGrid 2 2 1 0.5 0.5 0.5 example_renderer)) = Some 2
   \<and> grid_size_y (snd (constructRegularGrid 2 2 1 0.5 0.5 0.5 example_renderer)) = Some 2
   \<and> grid_size_z (snd (constructRegularGrid 2 2 1 0.5 0.5 0.5 example_renderer)) = Some 1"
  using grid_size_per_axis [of 2 2 1 "0.5" "0.5" "0.5" example_renderer]
  by (simp add: example_renderer_bounds)

text \<open>
  C3. The bound is computed with \<^verbatim>\<open>std::max\<close>: on the bounding box of the example, with
  3 pixels along y, the spacings are 1 and 1/2 for 2 pixels along x and 1/2 and 1/2 for 3
  pixels along x. The smaller spacing is 1/2 both times, and the bound is 20/3 the first
  time and 10/3 the second: it follows the larger spacing.
\<close>

theorem maxdistance_takes_larger_spacing:
  "fdiv (maxx example_renderer - minx example_renderer) (real_of_int (2 - 1)) = Some 1
   \<and> fdiv (maxy example_renderer - miny example_renderer) (real_of_int (3 - 1)) = Some (1 / 2)
   \<and> maxdistance (minx example_renderer) (maxx example_renderer)
        (miny example_renderer) (maxy example_renderer) 2 3 = Some (20 / 3)
   \<and> fdiv (maxx example_renderer - minx example_renderer) (real_of_int (3 - 1)) = Some (1 / 2)
   \<and> maxdistance (minx example_renderer) (maxx example_renderer)
        (miny example_renderer) (maxy example_renderer) 3 3 = Some (10 / 3)"
  by (simp add: maxdistance_def fdiv_def example_renderer_bounds)

section \<open>The regular grid\<close>

lemma fold_update_range_length:
  "length (fold (\<lambda>c m. m[b + c := f c]) [0..<k] mem) = length mem"
  by (induction k) simp_all

lemma fold_update_range_nth:
  "n < length mem \<Longrightarrow>
   fold (\<lambda>c m. m[b + c := f c]) [0..<k] mem ! n =
     (if b \<le> n \<and> n < b + k then f (n - b) else mem ! n)"
proof (induction k)
  case 0
  then show ?case by auto
next
  case (Suc k)
  show ?case
  proof (cases "n = b + k")
    case True
    then show ?thesis using Suc.prems by (simp add: fold_update_range_length)
  next
    case False
    then show ?thesis using Suc by (auto simp: fold_update_range_length)
  qed
qed

lemma store_float8_length: "length (store_float8 mem index v) = length mem"
  by (simp add: store_float8_def fold_update_range_length)

lemma store_float8_nth:
  "n < length mem \<Longrightarrow>
   store_float8 mem index v ! n =
     (if 8 * index \<le> n \<and> n < 8 * index + 8
      then Some (v ! (n - 8 * index)) else mem ! n)"
  unfolding store_float8_def by (rule fold_update_range_nth)

lemma write_cell_length: "length (write_cell mem n p e) = length mem"
  by (simp add: write_cell_def store_float_def store_float8_length)

lemma fold_write_cell_length: "length (fold (\<lambda>w m. write_cell m (fst w) (fst (snd w)) (snd (snd w))) ws mem) = length mem"
  by (induction ws arbitrary: mem) (simp_all add: write_cell_length)

lemma write_cell_nth:
  "n < length mem \<Longrightarrow>
   write_cell mem m p e ! n =
     (if n = m then Some e
      else if 8 * m \<le> n \<and> n < 8 * m + 8 then Some (p ! (n - 8 * m))
      else mem ! n)"
  by (simp add: write_cell_def store_float_def store_float8_nth store_float8_length)

lemma fold_write_cells_all:
  "map fst ws = [0..<length ws] \<Longrightarrow> 8 * length ws \<le> length mem \<Longrightarrow>
   \<forall>n p e. (n, p, e) \<in> set ws \<longrightarrow>
     fold (\<lambda>w m. write_cell m (fst w) (fst (snd w)) (snd (snd w))) ws mem ! n = Some e
     \<and> (\<forall>c<8. length ws \<le> 8 * n + c \<longrightarrow>
          fold (\<lambda>w m. write_cell m (fst w) (fst (snd w)) (snd (snd w))) ws mem ! (8 * n + c) = Some (p ! c))"
proof (induction ws rule: rev_induct)
  case Nil
  then show ?case by simp
next
  case (snoc w ws)
  obtain m p' e' where w: "w = (m, p', e')" by (cases w) auto
  have idx: "map fst ws = [0..<length ws]" and m: "m = length ws"
    using snoc.prems(1) by (simp_all add: w)
  have len: "8 * length ws \<le> length mem" "8 * m + 8 \<le> length mem"
    using snoc.prems(2) by (simp_all add: m)
  let ?M = "fold (\<lambda>w m. write_cell m (fst w) (fst (snd w)) (snd (snd w))) ws mem"
  have lM: "length ?M = length mem" by (rule fold_write_cell_length)
  have ih: "\<And>n p e. (n, p, e) \<in> set ws \<Longrightarrow>
     ?M ! n = Some e \<and> (\<forall>c<8. length ws \<le> 8 * n + c \<longrightarrow> ?M ! (8 * n + c) = Some (p ! c))"
    using snoc.IH [OF idx len(1)] by blast
  have old: "\<And>n p e. (n, p, e) \<in> set ws \<Longrightarrow> n < m"
  proof -
    fix n p e assume "(n, p, e) \<in> set ws"
    then have "n \<in> set (map fst ws)" by force
    then show "n < m" using idx m by simp
  qed
  show ?case
  proof (intro allI impI)
    fix n p e
    assume mem: "(n, p, e) \<in> set (ws @ [w])"
    show "fold (\<lambda>w m. write_cell m (fst w) (fst (snd w)) (snd (snd w))) (ws @ [w]) mem ! n = Some e
       \<and> (\<forall>c<8. length (ws @ [w]) \<le> 8 * n + c \<longrightarrow>
            fold (\<lambda>w m. write_cell m (fst w) (fst (snd w)) (snd (snd w))) (ws @ [w]) mem ! (8 * n + c) = Some (p ! c))"
    proof (cases "(n, p, e) \<in> set ws")
      case True
      have nm: "n < m" using old [OF True] .
      have a: "write_cell ?M m p' e' ! n = Some e"
        using ih [OF True] nm len lM by (simp add: write_cell_nth)
      have b: "\<And>c. c < 8 \<Longrightarrow> Suc (length ws) \<le> 8 * n + c \<Longrightarrow>
                 write_cell ?M m p' e' ! (8 * n + c) = Some (p ! c)"
      proof -
        fix c :: nat assume c: "c < 8" "Suc (length ws) \<le> 8 * n + c"
        have "8 * n + c < length ?M" using nm c len lM by simp
        then show "write_cell ?M m p' e' ! (8 * n + c) = Some (p ! c)"
          using ih [OF True] nm c m by (simp add: write_cell_nth)
      qed
      show ?thesis using a b by (simp add: w)
    next
      case False
      then have eq: "n = m" "p = p'" "e = e'" using mem by (simp_all add: w)
      have a: "write_cell ?M m p' e' ! m = Some e'"
        using len lM by (simp add: write_cell_nth)
      have b: "\<And>c. c < 8 \<Longrightarrow> Suc (length ws) \<le> 8 * m + c \<Longrightarrow>
                 write_cell ?M m p' e' ! (8 * m + c) = Some (p' ! c)"
        using len lM m by (auto simp: write_cell_nth)
      show ?thesis using a b by (simp add: w eq)
    qed
  qed
qed


lemma cells_inner: "map ((+) b) [0..<n] = [b..<b + n]"
  using map_add_upt [of b n] by (simp add: add.commute [of _ b] cong: map_cong)

lemma concat_blocks:
  "concat (map (\<lambda>j. [b + j * n..<b + j * n + n]) [0..<m]) = [b..<b + m * n]"
proof (induction m)
  case 0
  then show ?case by simp
next
  case (Suc m)
  have "[b..<b + m * n + n] = [b..<b + m * n] @ [b + m * n..<b + m * n + n]"
    by (rule upt_add_eq_append) simp
  then show ?case using Suc by (simp add: add.assoc add.commute [of n])
qed

lemma cells_index:
  "map (\<lambda>c. fst c * nx * nz + fst (snd c) * nz + snd (snd c)) (cells ny nx nz) = [0..<ny * nx * nz]"
proof -
  have middle: "\<And>i. concat (map (\<lambda>j. map (\<lambda>k. i * nx * nz + j * nz + k) [0..<nz]) [0..<nx])
                 = [0 + i * (nx * nz)..<0 + i * (nx * nz) + nx * nz]"
    using concat_blocks [of "i * (nx * nz)" nz nx for i] by (simp add: cells_inner mult.assoc)
  have "map (\<lambda>c. fst c * nx * nz + fst (snd c) * nz + snd (snd c)) (cells ny nx nz)
        = concat (map (\<lambda>i. concat (map (\<lambda>j. map (\<lambda>k. i * nx * nz + j * nz + k) [0..<nz]) [0..<nx]))
                   [0..<ny])"
    by (simp add: cells_def map_concat comp_def)
  also have "\<dots> = concat (map (\<lambda>i. [0 + i * (nx * nz)..<0 + i * (nx * nz) + nx * nz]) [0..<ny])"
    by (simp only: middle)
  also have "\<dots> = [0..<ny * nx * nz]"
    using concat_blocks [of 0 "nx * nz" ny] by (simp add: mult.assoc)
  finally show ?thesis .
qed

lemma cells_member: "i < ny \<Longrightarrow> j < nx \<Longrightarrow> k < nz \<Longrightarrow> (i, j, k) \<in> set (cells ny nx nz)"
  by (force simp: cells_def)

lemma fold_concat_list: "fold f (concat xss) = fold (fold f) xss"
  by (induction xss) simp_all

lemma grid_cell_fst:
  "fst (grid_cell s gx gy gz dx dy dz i j k mc) =
     (let w = cell_written s gx gy gz dx dy dz (i, j, k)
      in write_cell (fst mc) (fst w) (fst (snd w)) (snd (snd w)))"
  by (simp add: grid_cell_def cell_written_def Let_def)

lemma fst_fold_pair:
  "(\<And>c mc. fst (f c mc) = g c (fst mc)) \<Longrightarrow> fst (fold f cs mc) = fold g cs (fst mc)"
  by (induction cs arbitrary: mc) simp_all

lemma grid_loops_flat:
  "grid_loops s gx gy gz dx dy dz =
     fold (\<lambda>c. grid_cell s gx gy gz dx dy dz (fst c) (fst (snd c)) (snd (snd c)))
       (cells (nat gy) (nat gx) (nat gz))"
  by (simp add: grid_loops_def cells_def fold_concat_list fold_map comp_def)

lemma grid_loops_mem:
  "fst (grid_loops s gx gy gz dx dy dz mc) =
     fold (\<lambda>w m. write_cell m (fst w) (fst (snd w)) (snd (snd w)))
       (map (cell_written s gx gy gz dx dy dz) (cells (nat gy) (nat gx) (nat gz))) (fst mc)"
  unfolding grid_loops_flat fold_map comp_def
  by (rule fst_fold_pair) (simp add: grid_cell_fst Let_def)


lemma cells_written_index:
  "map fst (map (cell_written s gx gy gz dx dy dz) (cells (nat gy) (nat gx) (nat gz)))
     = [0..<nat gy * nat gx * nat gz]"
  using cells_index [of "nat gx" "nat gz" "nat gy"]
  by (simp add: cell_written_def cell_index_def Let_def comp_def)

lemma cells_written_length:
  "length (map (cell_written s gx gy gz dx dy dz) (cells (nat gy) (nat gx) (nat gz)))
     = nat gy * nat gx * nat gz"
  using arg_cong [OF cells_written_index [of s gx gy gz dx dy dz], of length] by simp

lemma input_size_positive:
  assumes "i < nat gy" "j < nat gx" "k < nat gz"
  shows "nat (gx * gy * gz) = nat gy * nat gx * nat gz"
proof -
  have "0 < gx" "0 < gy" "0 < gz" using assms by auto
  then show ?thesis by (simp add: nat_mult_distrib mult.commute)
qed

lemma cell_index_bound:
  assumes "i < nat gy" "j < nat gx" "k < nat gz"
  shows "cell_index gx gz i j k < nat gy * nat gx * nat gz"
proof -
  have "(i, j, k) \<in> set (cells (nat gy) (nat gx) (nat gz))"
    using assms by (rule cells_member)
  then have "cell_index gx gz i j k
      \<in> set (map (\<lambda>c. fst c * nat gx * nat gz + fst (snd c) * nat gz + snd (snd c))
                (cells (nat gy) (nat gx) (nat gz)))"
    by (force simp: cell_index_def)
  then show ?thesis by (simp only: cells_index) simp
qed

lemma constructRegularGrid_memory:
  assumes "i < nat gy" "j < nat gx" "k < nat gz"
    and w: "cell_written s gx gy gz dx dy dz (i, j, k) = (n, p, e)"
  shows "cl_buffer_points (snd (constructRegularGrid gx gy gz dx dy dz s)) ! n = Some e"
    and "cl_buffer_emissivity (snd (constructRegularGrid gx gy gz dx dy dz s)) ! n = Some e"
    and "c < 8 \<Longrightarrow> nat gy * nat gx * nat gz \<le> 8 * n + c \<Longrightarrow>
         cl_buffer_points (snd (constructRegularGrid gx gy gz dx dy dz s)) ! (8 * n + c) = Some (p ! c)"
proof -
  let ?N = "nat gy * nat gx * nat gz"
  let ?ws = "map (cell_written s gx gy gz dx dy dz) (cells (nat gy) (nat gx) (nat gz))"
  let ?mem = "replicate (8 * ?N) (None :: real option)"
  let ?M = "fold (\<lambda>w m. write_cell m (fst w) (fst (snd w)) (snd (snd w))) ?ws ?mem"
  have N: "nat (gx * gy * gz) = ?N" using assms(1-3) by (rule input_size_positive)
  have pts: "cl_buffer_points (snd (constructRegularGrid gx gy gz dx dy dz s)) = ?M"
    by (simp add: constructRegularGrid_def Let_def N grid_loops_mem)
  have emi: "cl_buffer_emissivity (snd (constructRegularGrid gx gy gz dx dy dz s)) = take ?N ?M"
    by (simp add: constructRegularGrid_def Let_def N grid_loops_mem)
  have idx: "map fst ?ws = [0..<length ?ws]"
    by (simp only: cells_written_index cells_written_length)
  have len: "8 * length ?ws \<le> length ?mem"
    by (simp only: cells_written_length length_replicate)
  have mem: "(n, p, e) \<in> set ?ws"
    using cells_member [OF assms(1-3)] w by force
  have n: "n < ?N"
    using cell_index_bound [OF assms(1-3)] w by (simp add: cell_written_def Let_def)
  note all = fold_write_cells_all [OF idx len, rule_format, OF mem]
  show "cl_buffer_points (snd (constructRegularGrid gx gy gz dx dy dz s)) ! n = Some e"
    using all by (simp only: pts)
  show "cl_buffer_emissivity (snd (constructRegularGrid gx gy gz dx dy dz s)) ! n = Some e"
    using all n by (simp only: emi nth_take)
  show "cl_buffer_points (snd (constructRegularGrid gx gy gz dx dy dz s)) ! (8 * n + c) = Some (p ! c)"
    if "c < 8" "?N \<le> 8 * n + c"
    using all that by (simp only: pts cells_written_length)
qed

text \<open>
  In the order of the source the entry of the emissivity buffer at the index of a cell
  whose query returns a source point is the value computed for the cell, \<open>10\<^sup>8\<close> times
  the peak intensity of the source point times its line width times 1.064467019: every
  float below \<open>input_size\<close> of the shared array is written last by an assignment to
  \<^verbatim>\<open>emissivity\<close>.
\<close>

lemma source_order_emissivity:
  assumes "i < nat gy" "j < nat gx" "k < nat gz"
    and "cell_query s gx gy gz dx dy dz i j k = v # vs"
  shows "cl_buffer_emissivity (snd (constructRegularGrid gx gy gz dx dy dz s)) ! cell_index gx gz i j k
           = Some (100000000 * (readvar (goftCube s) 0 ! snd v) * (readvar (goftCube s) 1 ! snd v)
                   * 1.064467019)"
proof -
  have w: "cell_written s gx gy gz dx dy dz (i, j, k)
             = (cell_index gx gz i j k, found_point (goftCube s) (snd v), found_emissivity (goftCube s) (snd v))"
    using assms(4) by (simp add: cell_written_def Let_def)
  show ?thesis
    using constructRegularGrid_memory(2) [OF assms(1-3) w]
    by (simp add: found_emissivity_def)
qed

lemma upt_8: "[0..<8] = [0, 1, 2, 3, 4, 5, 6, 7]"
  by (simp add: upt_rec)

lemma example_rtree: "rtree example_renderer = [((0, 1, 0), 0), ((1, 0, 0), 1)]"
  by (simp add: new_RegularGridRenderer_def example_goftcube_def min_element_def
      max_element_def example_renderer_def input_values_def upt_rec)

lemma example_queries:
  "cell_query example_renderer 2 2 1 (1 / 2) (1 / 2) (1 / 2) 0 0 0 = []"
  "cell_query example_renderer 2 2 1 (1 / 2) (1 / 2) (1 / 2) 0 (Suc 0) 0 = [((1, 0, 0), 1)]"
  "cell_query example_renderer 2 2 1 (1 / 2) (1 / 2) (1 / 2) (Suc 0) 0 0 = [((0, 1, 0), 0)]"
  "cell_query example_renderer 2 2 1 (1 / 2) (1 / 2) (1 / 2) (Suc 0) (Suc 0) 0 = []"
  by (simp_all add: cell_query_def cell_coordinate_def fdiv_def deltaz_def rtree_query_def
      example_rtree example_renderer_bounds Let_def)

text \<open>
  C2. On the example (\<open>gridx = gridy = 2\<close>, \<open>gridz = 1\<close>, distance bounds 1/2) no source
  point lies in the box of cell 0, and the points buffer ends with cell 0 as
  \<open>0, 2128934038, 638680211.4, 0, ...\<close>: its line width is the emissivity of cell 1 and its
  first velocity component the emissivity of cell 2, not the default \<open>0, 1, 0, 0, 0\<close>.
  \<^verbatim>\<open>emissivity\<close> addresses the array of \<^verbatim>\<open>points\<close>, so every write
  \<^verbatim>\<open>emissivity[index]\<close> lands in float \<open>index\<close> of the cells at the start of the buffer.
  The cells 1 and 2 hold the values of the source points found, and cell 3 the default.
\<close>

theorem example_grid_points:
  "cell_query example_renderer 2 2 1 (1 / 2) (1 / 2) (1 / 2) 0 0 0 = []
   \<and> default_point = [0, 1, 0, 0, 0, 0, 0, 0]
   \<and> cl_buffer_points example_grid_renderer =
       map Some [0, 2128934038, 3193401057 / 5, 0, 0, 0, 0, 0,
                 500000000, 4, 11, 17, 23, 0, 0, 0,
                 300000000, 2, 7, 13, 19, 0, 0, 0,
                 0, 1, 0, 0, 0, 0, 0, 0]"
  by (simp add: example_grid_renderer_def constructRegularGrid_def grid_loops_def Let_def
      grid_cell_def example_queries cell_index_def write_cell_def store_float_def store_float8_def
      upt_8 found_point_def found_emissivity_def default_point_def example_renderer_constants
      example_goftcube_def upt_rec eval_nat_numeral)

section \<open>The grid in any order of the cells\<close>

lemma constructRegularGrid_source_order:
  "constructRegularGrid gx gy gz dx dy dz s
     = constructRegularGrid_omp (cells (nat gy) (nat gx) (nat gz)) gx gy gz dx dy dz s"
  by (simp add: constructRegularGrid_def constructRegularGrid_omp_def grid_visits_def
      grid_loops_flat)

lemma cells_bounds: "(i, j, k) \<in> set (cells ny nx nz) \<Longrightarrow> i < ny \<and> j < nx \<and> k < nz"
  by (auto simp: cells_def)

lemma fold_write_cells_first:
  assumes "(0, p, e) \<in> set ws" and "\<forall>w\<in>set ws. fst w = 0 \<longrightarrow> w = (0, p, e)"
    and "0 < length mem"
  shows "fold (\<lambda>w m. write_cell m (fst w) (fst (snd w)) (snd (snd w))) ws mem ! 0 = Some e"
  using assms(1,2)
proof (induction ws rule: rev_induct)
  case Nil
  then show ?case by simp
next
  case (snoc w ws)
  let ?M = "fold (\<lambda>w m. write_cell m (fst w) (fst (snd w)) (snd (snd w))) ws mem"
  have lM: "0 < length ?M" using assms(3) by (simp only: fold_write_cell_length)
  have step: "fold (\<lambda>w m. write_cell m (fst w) (fst (snd w)) (snd (snd w))) (ws @ [w]) mem
                = write_cell ?M (fst w) (fst (snd w)) (snd (snd w))"
    by simp
  have old: "\<forall>w\<in>set ws. fst w = 0 \<longrightarrow> w = (0, p, e)"
    using snoc.prems(2) by (metis in_set_conv_decomp append_assoc append_Cons)
  show ?case
  proof (cases "fst w = 0")
    case True
    have "w \<in> set (ws @ [w])" by simp
    then have "w = (0, p, e)" using snoc.prems(2) True by blast
    then have "write_cell ?M (fst w) (fst (snd w)) (snd (snd w)) = write_cell ?M 0 p e"
      by (simp only: fst_conv snd_conv)
    moreover have "write_cell ?M 0 p e ! 0 = Some e"
      using lM by (simp add: write_cell_nth)
    ultimately show ?thesis by (simp only: step)
  next
    case False
    then have "(0, p, e) \<noteq> w" by auto
    then have "(0, p, e) \<in> set ws" using snoc.prems(1) by simp
    then have "?M ! 0 = Some e" by (rule snoc.IH [OF _ old])
    moreover have "write_cell ?M (fst w) (fst (snd w)) (snd (snd w)) ! 0 = ?M ! 0"
      using False lM by (simp add: write_cell_nth)
    ultimately show ?thesis by (simp only: step)
  qed
qed
lemma grid_visits_mem:
  "fst (grid_visits s gx gy gz dx dy dz order mc) =
     fold (\<lambda>w m. write_cell m (fst w) (fst (snd w)) (snd (snd w)))
       (map (cell_written s gx gy gz dx dy dz) order) (fst mc)"
  unfolding grid_visits_def fold_map comp_def
  by (rule fst_fold_pair) (simp add: grid_cell_fst Let_def)

lemma constructRegularGrid_omp_first_float:
  assumes o: "(0, 0, 0) \<in> set order" "set order \<subseteq> set (cells (nat gy) (nat gx) (nat gz))"
  shows "cl_buffer_points (snd (constructRegularGrid_omp order gx gy gz dx dy dz s)) ! 0
           = Some (snd (snd (cell_written s gx gy gz dx dy dz (0, 0, 0))))"
    and "cl_buffer_emissivity (snd (constructRegularGrid_omp order gx gy gz dx dy dz s)) ! 0
           = Some (snd (snd (cell_written s gx gy gz dx dy dz (0, 0, 0))))"
proof -
  let ?cw = "cell_written s gx gy gz dx dy dz"
  let ?ws = "map ?cw order"
  let ?N = "nat (gx * gy * gz)"
  let ?mem = "replicate (8 * ?N) (None :: real option)"
  let ?M = "fold (\<lambda>w m. write_cell m (fst w) (fst (snd w)) (snd (snd w))) ?ws ?mem"
  define p where "p = fst (snd (?cw (0, 0, 0)))"
  define e where "e = snd (snd (?cw (0, 0, 0)))"
  have "fst (?cw (0, 0, 0)) = 0"
    by (simp add: cell_written_def cell_index_def Let_def)
  then have w: "?cw (0, 0, 0) = (0, p, e)"
    by (simp add: p_def e_def prod_eq_iff)
  have "(0, 0, 0) \<in> set (cells (nat gy) (nat gx) (nat gz))" using o by blast
  then have pos: "0 < nat gy" "0 < nat gx" "0 < nat gz"
    using cells_bounds [of 0 0 0 "nat gy" "nat gx" "nat gz"] by simp_all
  then have "0 < gx" "0 < gy" "0 < gz" by simp_all
  then have "0 < gx * gy * gz" by simp
  then have N: "0 < ?N" by simp
  have "?cw (0, 0, 0) \<in> set ?ws" using o(1) by simp
  then have m: "(0, p, e) \<in> set ?ws" by (simp only: w)
  have u: "\<forall>w\<in>set ?ws. fst w = 0 \<longrightarrow> w = (0, p, e)"
  proof
    fix x assume "x \<in> set ?ws"
    then obtain c0 where c0: "c0 \<in> set order" "x = ?cw c0" by auto
    obtain i j k where ijk: "c0 = (i, j, k)" by (cases c0) auto
    have c: "(i, j, k) \<in> set order" "x = ?cw (i, j, k)" using c0 ijk by simp_all
    have "(i, j, k) \<in> set (cells (nat gy) (nat gx) (nat gz))" using c(1) o(2) by blast
    then have b: "i < nat gy" "j < nat gx" "k < nat gz"
      using cells_bounds [of i j k "nat gy" "nat gx" "nat gz"] by simp_all
    show "fst x = 0 \<longrightarrow> x = (0, p, e)"
    proof
      assume "fst x = 0"
      then have "cell_index gx gz i j k = 0"
        by (simp add: c(2) cell_written_def Let_def)
      then have z: "i * nat gx * nat gz + j * nat gz + k = 0"
        by (simp only: cell_index_def)
      have "k = 0" using z by simp
      moreover have "j = 0" using z pos by simp
      moreover have "i = 0" using z pos by simp
      ultimately show "x = (0, p, e)" using c(2) w by simp
    qed
  qed
  have l: "0 < length ?mem" using N by simp
  have M0: "?M ! 0 = Some e"
    by (rule fold_write_cells_first [OF m u l])
  have pts: "cl_buffer_points (snd (constructRegularGrid_omp order gx gy gz dx dy dz s)) = ?M"
    by (simp add: constructRegularGrid_omp_def Let_def grid_visits_mem)
  have emi: "cl_buffer_emissivity (snd (constructRegularGrid_omp order gx gy gz dx dy dz s)) = take ?N ?M"
    by (simp add: constructRegularGrid_omp_def Let_def grid_visits_mem)
  show "cl_buffer_points (snd (constructRegularGrid_omp order gx gy gz dx dy dz s)) ! 0
           = Some (snd (snd (?cw (0, 0, 0))))"
    using M0 by (simp only: pts w snd_conv)
  show "cl_buffer_emissivity (snd (constructRegularGrid_omp order gx gy gz dx dy dz s)) ! 0
           = Some (snd (snd (?cw (0, 0, 0))))"
    using M0 N by (simp only: emi w snd_conv nth_take)
qed

lemma example_diagonal_renderer_facts:
  "minx example_diagonal_renderer = 0" "maxx example_diagonal_renderer = 1"
  "miny example_diagonal_renderer = 0" "maxy example_diagonal_renderer = 1"
  "minz example_diagonal_renderer = 0" "maxz example_diagonal_renderer = 0"
  "goftCube example_diagonal_renderer = example_diagonal_goftcube"
  "rtree example_diagonal_renderer = [((0, 0, 0), 0), ((1, 1, 0), 1)]"
  by (simp_all add: new_RegularGridRenderer_def example_diagonal_goftcube_def example_goftcube_def
      min_element_def max_element_def example_diagonal_renderer_def input_values_def upt_rec)

lemma example_diagonal_queries:
  "cell_query example_diagonal_renderer 2 2 1 (1 / 2) (1 / 2) (1 / 2) 0 0 0 = [((0, 0, 0), 0)]"
  "cell_query example_diagonal_renderer 2 2 1 (1 / 2) (1 / 2) (1 / 2) 0 (Suc 0) 0 = []"
  "cell_query example_diagonal_renderer 2 2 1 (1 / 2) (1 / 2) (1 / 2) (Suc 0) 0 0 = []"
  "cell_query example_diagonal_renderer 2 2 1 (1 / 2) (1 / 2) (1 / 2) (Suc 0) (Suc 0) 0 = [((1, 1, 0), 1)]"
  by (simp_all add: cell_query_def cell_coordinate_def fdiv_def deltaz_def rtree_query_def
      example_diagonal_renderer_facts Let_def)


lemma example_diagonal_source:
  "cl_buffer_points (snd (constructRegularGrid 2 2 1 (1 / 2) (1 / 2) (1 / 2) example_diagonal_renderer))
     = map Some [3193401057 / 5, 0, 0, 2128934038, 19, 0, 0, 0,
                 0, 1, 0, 0, 0, 0, 0, 0,
                 0, 1, 0, 0, 0, 0, 0, 0,
                 500000000, 4, 11, 17, 23, 0, 0, 0]"
  "cl_buffer_emissivity (snd (constructRegularGrid 2 2 1 (1 / 2) (1 / 2) (1 / 2) example_diagonal_renderer))
     = map Some [3193401057 / 5, 0, 0, 2128934038]"
  by (simp_all add: constructRegularGrid_def grid_loops_def Let_def
      grid_cell_def example_diagonal_queries cell_index_def write_cell_def store_float_def store_float8_def
      upt_8 found_point_def found_emissivity_def default_point_def example_diagonal_renderer_facts
      example_diagonal_goftcube_def example_goftcube_def upt_rec eval_nat_numeral)

lemma example_diagonal_reverse:
  "cl_buffer_points
     (snd (constructRegularGrid_omp [(Suc 0, Suc 0, 0), (Suc 0, 0, 0), (0, Suc 0, 0), (0, 0, 0)]
             2 2 1 (1 / 2) (1 / 2) (1 / 2) example_diagonal_renderer))
     = map Some [3193401057 / 5, 2, 7, 13, 19, 0, 0, 0,
                 0, 1, 0, 0, 0, 0, 0, 0,
                 0, 1, 0, 0, 0, 0, 0, 0,
                 500000000, 4, 11, 17, 23, 0, 0, 0]"
  "cl_buffer_emissivity
     (snd (constructRegularGrid_omp [(Suc 0, Suc 0, 0), (Suc 0, 0, 0), (0, Suc 0, 0), (0, 0, 0)]
             2 2 1 (1 / 2) (1 / 2) (1 / 2) example_diagonal_renderer))
     = map Some [3193401057 / 5, 2, 7, 13]"
  by (simp_all add: constructRegularGrid_omp_def grid_visits_def Let_def
      grid_cell_def example_diagonal_queries cell_index_def write_cell_def store_float_def store_float8_def
      upt_8 found_point_def found_emissivity_def default_point_def example_diagonal_renderer_facts
      example_diagonal_goftcube_def example_goftcube_def upt_rec eval_nat_numeral)

text \<open>
  C6. The intensity stored for a cell is the first float of its entry in the points buffer,
  and the emissivity stored for it is the float at its index in the emissivity buffer, which
  is copied from the array that \<^verbatim>\<open>emissivity\<close> addresses. That array is the array of the
  points, so for cell 0 both are float 0 of it, and the intensity assigned to cell 0 is
  overwritten by its emissivity in whatever order the cells are visited
  (\<open>constructRegularGrid_omp_first_float\<close>). On the diagonal example cell 0 finds the first
  source point, with the intensity \<open>3 * 10\<^sup>8\<close>, the line width 2 and the emissivity
  638680211.4. After the method the intensity stored for cell 0 is 638680211.4, and that
  times the line width times 1.064467019 is not the emissivity stored for it. In the order
  of the source the line width and two velocities of cell 0 are emissivities of the cells 1,
  2 and 3 as well. With the cells visited in the reverse order the emissivity buffer holds
  13, a velocity assigned to cell 0, for cell 3, which finds the second source point with
  the emissivity 2128934038.
\<close>

theorem stored_intensity_is_emissivity:
  "cell_query example_diagonal_renderer 2 2 1 (1 / 2) (1 / 2) (1 / 2) 0 0 0 = [((0, 0, 0), 0)]
   \<and> found_point example_diagonal_goftcube 0 = [300000000, 2, 7, 13, 19, 0, 0, 0]
   \<and> found_emissivity example_diagonal_goftcube 0 = 3193401057 / 5
   \<and> take 8 (cl_buffer_points
         (snd (constructRegularGrid 2 2 1 (1 / 2) (1 / 2) (1 / 2) example_diagonal_renderer)))
       = map Some [3193401057 / 5, 0, 0, 2128934038, 19, 0, 0, 0]
   \<and> cl_buffer_emissivity
         (snd (constructRegularGrid 2 2 1 (1 / 2) (1 / 2) (1 / 2) example_diagonal_renderer))
       = map Some [3193401057 / 5, 0, 0, 2128934038]
   \<and> (3193401057 / 5 :: real) * 2 * 1.064467019 \<noteq> 3193401057 / 5
   \<and> cell_query example_diagonal_renderer 2 2 1 (1 / 2) (1 / 2) (1 / 2) 1 1 0 = [((1, 1, 0), 1)]
   \<and> found_emissivity example_diagonal_goftcube 1 = 2128934038
   \<and> take 8 (cl_buffer_points
         (snd (constructRegularGrid_omp [(1, 1, 0), (1, 0, 0), (0, 1, 0), (0, 0, 0)]
                 2 2 1 (1 / 2) (1 / 2) (1 / 2) example_diagonal_renderer)))
       = map Some [3193401057 / 5, 2, 7, 13, 19, 0, 0, 0]
   \<and> cl_buffer_emissivity
         (snd (constructRegularGrid_omp [(1, 1, 0), (1, 0, 0), (0, 1, 0), (0, 0, 0)]
                 2 2 1 (1 / 2) (1 / 2) (1 / 2) example_diagonal_renderer))
       = map Some [3193401057 / 5, 2, 7, 13]"
  by (simp add: example_diagonal_queries example_diagonal_source example_diagonal_reverse
      found_point_def found_emissivity_def example_diagonal_goftcube_def example_goftcube_def)

text \<open>
  With one cell along x or along y every cell has a NaN for a coordinate, and the grid does
  not depend on the distance bounds.
\<close>

lemma maxdistance_None:
  "maxdistance x0 x1 y0 y1 xp yp = None \<longleftrightarrow> xp = 1 \<or> yp = 1"
  by (auto simp: maxdistance_def fdiv_def)

lemma cell_query_one_column:
  "gx = 1 \<or> gy = 1 \<Longrightarrow> cell_query s gx gy gz dx dy dz i j k = []"
  by (auto simp: cell_query_def cell_coordinate_def fdiv_def split: option.splits)

lemma constructRegularGrid_one_column:
  assumes "gx = 1 \<or> gy = 1"
  shows "constructRegularGrid gx gy gz dx dy dz s = constructRegularGrid gx gy gz dx' dy' dz' s"
proof -
  have "grid_cell s gx gy gz dx dy dz = grid_cell s gx gy gz dx' dy' dz'"
    using assms by (intro ext) (simp add: grid_cell_def cell_query_one_column)
  then have "grid_loops s gx gy gz dx dy dz = grid_loops s gx gy gz dx' dy' dz'"
    by (simp add: grid_loops_def)
  then show ?thesis by (simp add: constructRegularGrid_def)
qed

section \<open>The chunked loop of render\<close>

lemma copy_range:
  assumes "lo + n \<le> length fl" "n \<le> length src"
  shows "fold (\<lambda>i f. f[lo + i := src ! i]) [0..<n] fl = take lo fl @ take n src @ drop (lo + n) fl"
proof (rule nth_equalityI)
  show "length (fold (\<lambda>i f. f[lo + i := src ! i]) [0..<n] fl)
          = length (take lo fl @ take n src @ drop (lo + n) fl)"
    using assms by (simp add: fold_update_range_length)
next
  fix i assume "i < length (fold (\<lambda>i f. f[lo + i := src ! i]) [0..<n] fl)"
  then have i: "i < length fl" by (simp add: fold_update_range_length)
  show "fold (\<lambda>i f. f[lo + i := src ! i]) [0..<n] fl ! i
          = (take lo fl @ take n src @ drop (lo + n) fl) ! i"
    using assms i by (auto simp: fold_update_range_nth nth_append)
qed

lemma length_concat_rows:
  "length (concat (map (\<lambda>q. map (g q) [0..<stride]) qs)) = length qs * stride"
  by (induction qs) simp_all

lemma write_chunk_take:
  "take (n * stride) (write_chunk f n stride old)
     = concat (map (\<lambda>q. map (\<lambda>k. Some (f q k)) [0..<stride]) [0..<n])"
  by (simp add: write_chunk_def length_concat_rows)

lemma concat_rows_shift:
  "concat (map (\<lambda>q. map (\<lambda>k. Some (F (b + q) k)) [0..<stride]) [0..<n])
     = concat (map (\<lambda>g. map (\<lambda>k. Some (F g k)) [0..<stride]) [b..<b + n])"
proof -
  have "map (\<lambda>q. map (\<lambda>k. Some (F (b + q) k)) [0..<stride]) [0..<n]
        = map (\<lambda>g. map (\<lambda>k. Some (F g k)) [0..<stride]) (map ((+) b) [0..<n])"
    by (simp add: comp_def)
  then show ?thesis by (simp only: cells_inner)
qed

lemma extractData_floats:
  assumes "displayMode s = AllIntensities"
    and "(offset + n) * nat (lambda_pixel s) \<le> length (snd out)"
    and "n * nat (lambda_pixel s) \<le> length (cl_buffer_floats_out s index)"
  shows "extractData index n offset out s =
     (fst out,
      take (offset * nat (lambda_pixel s)) (snd out)
      @ take (n * nat (lambda_pixel s)) (cl_buffer_floats_out s index)
      @ drop ((offset + n) * nat (lambda_pixel s)) (snd out))"
  using assms by (simp add: extractData_def Let_def copy_range add_mult_distrib)

lemma enqueueKernel_floats:
  assumes "kernels s = Some p" "ALL_INTENSITIES p"
  shows "snd (enqueueKernel index offset n s) =
     s\<lparr>cl_buffer_floats_out := (cl_buffer_floats_out s)
         (index := write_chunk (\<lambda>q. ray_floats (kernel_source s) (kernel_env p s) (offset + q))
                     n (nat (LAMBDA_PIXEL p)) (cl_buffer_floats_out s index))\<rparr>"
    and "fst (enqueueKernel index offset n s) = [EnqueueKernel index offset n]"
  using assms by (simp_all add: enqueueKernel_def)

lemma kernel_env_floats_out [simp]:
  "kernel_env p (s\<lparr>cl_buffer_floats_out := X\<rparr>) = kernel_env p s"
  by (simp add: kernel_env_def)

lemma reference_rows_length: "length (reference_rows F stride a b) = (b - a) * stride"
  by (simp add: reference_rows_def length_concat_rows)

lemma reference_rows_append:
  "a \<le> b \<Longrightarrow> b \<le> c \<Longrightarrow>
   reference_rows F stride a b @ reference_rows F stride b c = reference_rows F stride a c"
proof -
  assume "a \<le> b" "b \<le> c"
  then have "[a..<c] = [a..<b] @ [b..<c]"
    using upt_add_eq_append [of a b "c - b"] by simp
  then show ?thesis by (simp add: reference_rows_def)
qed

lemma write_chunk_reference:
  "take (n * stride) (write_chunk (\<lambda>q. F (b + q)) n stride old) = reference_rows F stride b (b + n)"
  by (simp only: write_chunk_take concat_rows_shift reference_rows_def)

lemma render_loop_floats:
  assumes p: "kernels s1 = Some p" "ALL_INTENSITIES p" "nat (LAMBDA_PIXEL p) = lp"
      "nat (lambda_pixel s1) = lp" "displayMode s1 = AllIntensities"
    and F: "F = ray_floats (kernel_source s1) (kernel_env p s1)"
  shows "0 < c \<Longrightarrow> length floats0 = pixels * lp \<Longrightarrow> c dvd offset \<Longrightarrow> c \<le> offset \<Longrightarrow> offset - c \<le> pixels \<Longrightarrow>
         offset - c < pixels \<or> offset = c \<Longrightarrow> index < 2 \<Longrightarrow>
         fst (snd acc) = s1\<lparr>cl_buffer_floats_out := cl_buffer_floats_out (fst (snd acc))\<rparr> \<Longrightarrow>
         take (min c (pixels - (offset - c)) * lp) (cl_buffer_floats_out (fst (snd acc)) index)
           = reference_rows F lp (offset - c) (offset - c + min c (pixels - (offset - c))) \<Longrightarrow>
         snd (snd (snd acc)) = reference_rows F lp 0 (offset - c) @ drop ((offset - c) * lp) floats0 \<Longrightarrow>
         \<exists>offset'. c dvd offset' \<and> c \<le> offset' \<and> offset' - c \<le> pixels \<and> pixels \<le> offset'
           \<and> (offset' - c < pixels \<or> offset' = c)
           \<and> fst (snd (snd (render_loop c pixels offset index acc)))
               = s1\<lparr>cl_buffer_floats_out :=
                     cl_buffer_floats_out (fst (snd (snd (render_loop c pixels offset index acc))))\<rparr>
           \<and> take (min c (pixels - (offset' - c)) * lp)
                 (cl_buffer_floats_out (fst (snd (snd (render_loop c pixels offset index acc))))
                    (fst (snd (render_loop c pixels offset index acc))))
               = reference_rows F lp (offset' - c) (offset' - c + min c (pixels - (offset' - c)))
           \<and> snd (snd (snd (snd (render_loop c pixels offset index acc))))
               = reference_rows F lp 0 (offset' - c) @ drop ((offset' - c) * lp) floats0
           \<and> fst (snd (snd (snd (render_loop c pixels offset index acc)))) = fst (snd (snd acc))"
proof (induction c pixels offset index acc rule: render_loop.induct)
  case (1 chunk pixels offset index acc)
  note c = \<open>0 < chunk\<close> and len = \<open>length floats0 = pixels * lp\<close>
  show ?case
  proof (cases "offset < pixels")
    case False
    then have stop: "render_loop chunk pixels offset index acc
                      = (fst acc, index, fst (snd acc), snd (snd acc))"
      by (simp add: render_loop_stop)
    show ?thesis
      unfolding stop using "1.prems" False
      by (intro exI [of _ offset]) simp
  next
    case True
    let ?st = "fst (snd acc)"
    let ?m = "min chunk (pixels - offset)"
    define i' where "i' = 1 - index"
    define r where "r = enqueueKernel i' offset ?m ?st"
    let ?fl = "snd (snd (snd acc))"
    obtain A where st: "?st = s1\<lparr>cl_buffer_floats_out := A\<rparr>"
      using "1.prems"(8) by blast
    have k: "kernels ?st = Some p" "kernel_source ?st = kernel_source s1"
      "kernel_env p ?st = kernel_env p s1" "lambda_pixel ?st = lambda_pixel s1"
      "displayMode ?st = displayMode s1"
      by (simp_all add: st p)
    have r: "snd r = ?st\<lparr>cl_buffer_floats_out := (cl_buffer_floats_out ?st)
               (i' := write_chunk (\<lambda>q. F (offset + q)) ?m lp
                               (cl_buffer_floats_out ?st i'))\<rparr>"
      using enqueueKernel_floats(1) [OF k(1) p(2)] by (simp add: k p F r_def)
    have r1: "snd r = s1\<lparr>cl_buffer_floats_out := cl_buffer_floats_out (snd r)\<rparr>"
      unfolding r by (simp add: st)
    have k1: "lambda_pixel (snd r) = lambda_pixel s1" "displayMode (snd r) = displayMode s1"
      unfolding r by (simp_all add: st)
    have ne: "i' \<noteq> index" "i' < 2" using \<open>index < 2\<close> unfolding i'_def by arith+
    have full: "min chunk (pixels - (offset - chunk)) = chunk"
      using True \<open>chunk \<le> offset\<close> by auto
    have buf: "take (chunk * lp) (cl_buffer_floats_out (snd r) index)
                = reference_rows F lp (offset - chunk) offset"
    proof -
      have "take (chunk * lp) (cl_buffer_floats_out ?st index)
              = reference_rows F lp (offset - chunk) (offset - chunk + chunk)"
        using "1.prems"(9) unfolding full .
      moreover have "cl_buffer_floats_out (snd r) index = cl_buffer_floats_out ?st index"
        unfolding r using ne by simp
      ultimately show ?thesis using \<open>chunk \<le> offset\<close> by simp
    qed
    have lbuf: "chunk * lp \<le> length (cl_buffer_floats_out (snd r) index)"
      using arg_cong [OF buf, of length] \<open>chunk \<le> offset\<close>
      by (simp add: reference_rows_length)
    have ale: "(offset - chunk) * lp \<le> pixels * lp" "(offset - chunk) * lp \<le> offset * lp"
      using \<open>offset - chunk \<le> pixels\<close> by (simp_all add: mult_le_mono1)
    have lfl: "length ?fl = pixels * lp"
      using "1.prems"(10) len ale by (simp add: reference_rows_length)
    have ex: "extractData index chunk (offset - chunk) (snd (snd acc)) (snd r)
              = (fst (snd (snd acc)),
                 reference_rows F lp 0 offset @ drop (offset * lp) floats0)"
    proof -
      have "displayMode (snd r) = AllIntensities"
        by (simp add: k1 p)
      moreover have "(offset - chunk + chunk) * nat (lambda_pixel (snd r)) \<le> length ?fl"
        using True \<open>chunk \<le> offset\<close> lfl by (simp add: k1 p)
      moreover have "chunk * nat (lambda_pixel (snd r)) \<le> length (cl_buffer_floats_out (snd r) index)"
        using lbuf by (simp add: k1 p)
      ultimately have e: "extractData index chunk (offset - chunk) (snd (snd acc)) (snd r) =
        (fst (snd (snd acc)),
         take ((offset - chunk) * nat (lambda_pixel (snd r))) ?fl
         @ take (chunk * nat (lambda_pixel (snd r))) (cl_buffer_floats_out (snd r) index)
         @ drop ((offset - chunk + chunk) * nat (lambda_pixel (snd r))) ?fl)"
        by (rule extractData_floats)
      have lp: "nat (lambda_pixel (snd r)) = lp" by (simp add: k1 p)
      have t1: "take ((offset - chunk) * lp) ?fl = reference_rows F lp 0 (offset - chunk)"
        using "1.prems"(10) by (simp add: reference_rows_length)
      have t3: "drop (offset * lp) ?fl = drop (offset * lp) floats0"
        using "1.prems"(10) ale by (simp add: reference_rows_length)
      have "reference_rows F lp 0 (offset - chunk) @ reference_rows F lp (offset - chunk) offset
              = reference_rows F lp 0 offset"
        by (rule reference_rows_append) simp_all
      then show ?thesis
        using \<open>chunk \<le> offset\<close> by (simp add: e lp t1 t3 buf)
    qed
    let ?acc' = "(fst acc @ fst r, snd r, extractData index chunk (offset - chunk) (snd (snd acc)) (snd r))"
    have step: "render_loop chunk pixels offset index acc
                  = render_loop chunk pixels (offset + chunk) i' ?acc'"
      using c True unfolding r_def i'_def by (simp add: render_loop_step)
    have nbuf: "take (min chunk (pixels - (offset + chunk - chunk)) * lp)
                  (cl_buffer_floats_out (fst (snd ?acc')) i')
                = reference_rows F lp (offset + chunk - chunk)
                    (offset + chunk - chunk + min chunk (pixels - (offset + chunk - chunk)))"
      by (simp add: r write_chunk_reference)
    have IH: "\<exists>offset'. chunk dvd offset' \<and> chunk \<le> offset' \<and> offset' - chunk \<le> pixels \<and> pixels \<le> offset'
           \<and> (offset' - chunk < pixels \<or> offset' = chunk)
           \<and> fst (snd (snd (render_loop chunk pixels (offset + chunk) i' ?acc')))
               = s1\<lparr>cl_buffer_floats_out :=
                     cl_buffer_floats_out (fst (snd (snd (render_loop chunk pixels (offset + chunk) i' ?acc'))))\<rparr>
           \<and> take (min chunk (pixels - (offset' - chunk)) * lp)
                 (cl_buffer_floats_out (fst (snd (snd (render_loop chunk pixels (offset + chunk) i' ?acc'))))
                    (fst (snd (render_loop chunk pixels (offset + chunk) i' ?acc'))))
               = reference_rows F lp (offset' - chunk) (offset' - chunk + min chunk (pixels - (offset' - chunk)))
           \<and> snd (snd (snd (snd (render_loop chunk pixels (offset + chunk) i' ?acc'))))
               = reference_rows F lp 0 (offset' - chunk) @ drop ((offset' - chunk) * lp) floats0
           \<and> fst (snd (snd (snd (render_loop chunk pixels (offset + chunk) i' ?acc')))) = fst (snd (snd ?acc'))"
    proof (rule "1.IH" [OF _ refl, folded i'_def, folded r_def])
      show "0 < chunk \<and> offset < pixels" using c True by simp
      show "0 < chunk" by fact
      show "length floats0 = pixels * lp" by fact
      show "chunk dvd offset + chunk" using \<open>chunk dvd offset\<close> by simp
      show "chunk \<le> offset + chunk" by simp
      show "offset + chunk - chunk \<le> pixels" using True by simp
      show "offset + chunk - chunk < pixels \<or> offset + chunk = chunk" using True by simp
      show "i' < 2" by (rule ne)
      show "fst (snd ?acc') = s1\<lparr>cl_buffer_floats_out := cl_buffer_floats_out (fst (snd ?acc'))\<rparr>"
        using r1 by simp
      show "take (min chunk (pixels - (offset + chunk - chunk)) * lp)
                  (cl_buffer_floats_out (fst (snd ?acc')) i')
                = reference_rows F lp (offset + chunk - chunk)
                    (offset + chunk - chunk + min chunk (pixels - (offset + chunk - chunk)))"
        by (rule nbuf)
      show "snd (snd (snd ?acc')) = reference_rows F lp 0 (offset + chunk - chunk)
               @ drop ((offset + chunk - chunk) * lp) floats0"
        by (simp add: ex)
    qed
    show ?thesis
      unfolding step using IH by (simp add: ex)
  qed
qed

lemma last_block:
  fixes a c pixels :: nat
  assumes "c dvd a" "a \<le> pixels" "pixels < a + c"
  shows "pixels div c * c = a" "pixels mod c = pixels - a"
proof -
  define r where "r = pixels - a"
  have r: "pixels = a + r" "r < c" using assms(2,3) by (simp_all add: r_def)
  have "(a + r) div c = a div c + r div c"
    using assms(1) by (rule div_plus_div_distrib_dvd_left)
  then show "pixels div c * c = a" using r assms(1) by simp
  have "(a + r) mod c = r" using assms(1) r(2) by (metis add_0 dvd_eq_mod_eq_0 mod_add_left_eq mod_less)
  then show "pixels mod c = pixels - a" using r by simp
qed

lemma render_floats:
  assumes c: "0 < chunk_size s"
    and p: "kernels s = Some p" "ALL_INTENSITIES p" "LAMBDA_PIXEL p = lambda_pixel s"
      "displayMode s = AllIntensities"
    and len: "length floats = nat (x_pixel s * y_pixel s) * nat (lambda_pixel s)"
    and px: "pixels = nat (x_pixel s * y_pixel s)"
    and lp: "lp = nat (lambda_pixel s)"
    and F: "F = ray_floats (kernel_source s)
                  (kernel_env p (s\<lparr>parameters := Some (frame_parameters l b w h s)\<rparr>))"
    and d: "n = (if pixels mod chunk_size s = 0 then pixels - chunk_size s else pixels)"
    and nn: "0 \<le> x_pixel s * y_pixel s"
  shows "\<exists>evs s'. render l b w h (bytes, floats) s
           = Inr (evs, s', (bytes, reference_rows F lp 0 n @ drop (n * lp) floats))"
proof -
  let ?c = "chunk_size s"
  define s1 where "s1 = s\<lparr>parameters := Some (frame_parameters l b w h s)\<rparr>"
  define r0 where "r0 = enqueueKernel 0 0 (min ?c pixels) s1"
  define acc where "acc = (fst r0, snd r0, (bytes, floats))"
  define R where "R = render_loop ?c pixels ?c 0 acc"
  have k: "kernels s1 = Some p" "nat (LAMBDA_PIXEL p) = lp" "nat (lambda_pixel s1) = lp"
    "displayMode s1 = AllIntensities" "kernel_source s1 = kernel_source s"
    by (simp_all add: s1_def p lp)
  have F1: "F = ray_floats (kernel_source s1) (kernel_env p s1)"
    by (simp add: F s1_def)
  have r0: "snd r0 = s1\<lparr>cl_buffer_floats_out := (cl_buffer_floats_out s1)
               (0 := write_chunk (\<lambda>q. F (0 + q)) (min ?c pixels) lp (cl_buffer_floats_out s1 0))\<rparr>"
    unfolding r0_def using enqueueKernel_floats(1) [OF k(1) p(2)] by (simp add: k F1)
  have len': "length floats = pixels * lp" using len px lp by simp
  have ex: "\<exists>offset'. ?c dvd offset' \<and> ?c \<le> offset' \<and> offset' - ?c \<le> pixels \<and> pixels \<le> offset'
           \<and> (offset' - ?c < pixels \<or> offset' = ?c)
           \<and> fst (snd (snd R))
               = s1\<lparr>cl_buffer_floats_out := cl_buffer_floats_out (fst (snd (snd R)))\<rparr>
           \<and> take (min ?c (pixels - (offset' - ?c)) * lp)
                 (cl_buffer_floats_out (fst (snd (snd R))) (fst (snd R)))
               = reference_rows F lp (offset' - ?c) (offset' - ?c + min ?c (pixels - (offset' - ?c)))
           \<and> snd (snd (snd (snd R)))
               = reference_rows F lp 0 (offset' - ?c) @ drop ((offset' - ?c) * lp) floats
           \<and> fst (snd (snd (snd R))) = fst (snd (snd acc))"
  proof (unfold R_def, rule render_loop_floats [OF k(1) p(2) k(2) k(3) k(4) F1 c len'])
    show "?c dvd ?c" "?c \<le> ?c" "?c - ?c \<le> pixels" "?c - ?c < pixels \<or> ?c = ?c" "(0::nat) < 2"
      by simp_all
    show "fst (snd acc) = s1\<lparr>cl_buffer_floats_out := cl_buffer_floats_out (fst (snd acc))\<rparr>"
      by (simp add: acc_def r0)
    show "take (min ?c (pixels - (?c - ?c)) * lp) (cl_buffer_floats_out (fst (snd acc)) 0)
            = reference_rows F lp (?c - ?c) (?c - ?c + min ?c (pixels - (?c - ?c)))"
      using write_chunk_reference [of "min ?c pixels" lp F 0] by (simp add: acc_def r0)
    show "snd (snd (snd acc)) = reference_rows F lp 0 (?c - ?c) @ drop ((?c - ?c) * lp) floats"
      by (simp add: acc_def reference_rows_def)
  qed
  obtain o' where all: "?c dvd o' \<and> ?c \<le> o' \<and> o' - ?c \<le> pixels \<and> pixels \<le> o'
           \<and> (o' - ?c < pixels \<or> o' = ?c)
           \<and> fst (snd (snd R))
               = s1\<lparr>cl_buffer_floats_out := cl_buffer_floats_out (fst (snd (snd R)))\<rparr>
           \<and> take (min ?c (pixels - (o' - ?c)) * lp)
                 (cl_buffer_floats_out (fst (snd (snd R))) (fst (snd R)))
               = reference_rows F lp (o' - ?c) (o' - ?c + min ?c (pixels - (o' - ?c)))
           \<and> snd (snd (snd (snd R)))
               = reference_rows F lp 0 (o' - ?c) @ drop ((o' - ?c) * lp) floats
           \<and> fst (snd (snd (snd R))) = fst (snd (snd acc))"
    using ex by blast
  have o: "?c dvd o'" "?c \<le> o'" "o' - ?c \<le> pixels" "pixels \<le> o'"
      "o' - ?c < pixels \<or> o' = ?c"
    using all by blast+
  have st: "fst (snd (snd R)) = s1\<lparr>cl_buffer_floats_out := cl_buffer_floats_out (fst (snd (snd R)))\<rparr>"
    using all by blast
  have buf: "take (min ?c (pixels - (o' - ?c)) * lp)
                 (cl_buffer_floats_out (fst (snd (snd R))) (fst (snd R)))
               = reference_rows F lp (o' - ?c) (o' - ?c + min ?c (pixels - (o' - ?c)))"
    using all by blast
  have fl: "snd (snd (snd (snd R))) = reference_rows F lp 0 (o' - ?c) @ drop ((o' - ?c) * lp) floats"
    using all by blast
  have "fst (snd (snd (snd R))) = fst (snd (snd acc))" using all by blast
  then have byt: "fst (snd (snd (snd R))) = bytes" by (simp add: acc_def)
  let ?S = "fst (snd (snd R))"
  let ?fl = "snd (snd (snd (snd R)))"
  let ?a = "o' - ?c"
  obtain A where stA: "?S = s1\<lparr>cl_buffer_floats_out := A\<rparr>" using st by blast
  have kS: "displayMode ?S = AllIntensities" "nat (lambda_pixel ?S) = lp"
    by (simp_all add: stA k)
  have da: "?c dvd ?a" using o(1,2) by (simp add: dvd_diff_nat)
  have ale: "?a * lp \<le> pixels * lp" using o(3) by (simp add: mult_le_mono1)
  have lfl: "length ?fl = pixels * lp"
    using fl len' ale by (simp add: reference_rows_length)
  have res: "render l b w h (bytes, floats) s
     = Inr (fst R, ?S, extractData (fst (snd R)) (pixels mod ?c) (pixels div ?c * ?c)
                         (snd (snd (snd R))) ?S)"
    using c nn by (simp add: render_def Let_def px [symmetric] s1_def [symmetric]
        r0_def [symmetric] acc_def [symmetric] R_def [symmetric])
  have "extractData (fst (snd R)) (pixels mod ?c) (pixels div ?c * ?c) (snd (snd (snd R))) ?S
          = (bytes, reference_rows F lp 0 n @ drop (n * lp) floats)"
  proof (cases "pixels mod ?c = 0")
    case True
    have n: "n = ?a"
    proof (cases "o' = ?c")
      case True
      have "?c dvd pixels" using \<open>pixels mod ?c = 0\<close> by (simp add: dvd_eq_mod_eq_0)
      then have "0 < pixels \<Longrightarrow> ?c \<le> pixels" by (rule dvd_imp_le)
      then have "pixels = 0 \<or> pixels = ?c" using o(4) True by auto
      then show ?thesis using d \<open>pixels mod ?c = 0\<close> True by auto
    next
      case False
      then have "?a < pixels" using o(5) by simp
      moreover have "?c dvd pixels" using True by (simp add: dvd_eq_mod_eq_0)
      ultimately have "pixels = o'"
      proof -
        assume a: "?a < pixels" and dv: "?c dvd pixels"
        show "pixels = o'"
        proof (rule ccontr)
          assume "pixels \<noteq> o'"
          then have lt: "pixels < o'" using o(4) by simp
          have "?c dvd o' - pixels" using o(1) dv by (rule dvd_diff_nat)
          moreover have "0 < o' - pixels" using lt by simp
          ultimately have "?c \<le> o' - pixels" by (rule dvd_imp_le)
          then show False using a lt o(2) by arith
        qed
      qed
      then show ?thesis using d True by simp
    qed
    have "(pixels div ?c * ?c + 0) * nat (lambda_pixel ?S) \<le> length (snd (snd (snd (snd R))))"
      using lfl True by (simp add: kS)
    moreover have "0 * nat (lambda_pixel ?S) \<le> length (cl_buffer_floats_out ?S (fst (snd R)))"
      by simp
    ultimately have "extractData (fst (snd R)) 0 (pixels div ?c * ?c) (snd (snd (snd R))) ?S
       = (fst (snd (snd (snd R))),
          take (pixels div ?c * ?c * nat (lambda_pixel ?S)) ?fl
          @ take (0 * nat (lambda_pixel ?S)) (cl_buffer_floats_out ?S (fst (snd R)))
          @ drop ((pixels div ?c * ?c + 0) * nat (lambda_pixel ?S)) ?fl)"
      using extractData_floats [OF kS(1)] by blast
    then have "extractData (fst (snd R)) 0 (pixels div ?c * ?c) (snd (snd (snd R))) ?S = (bytes, ?fl)"
      by (simp add: byt)
    then show ?thesis using True by (simp add: fl n)
  next
    case False
    have "pixels \<noteq> o'" using False o(1) by (auto simp: dvd_eq_mod_eq_0)
    then have lt: "pixels < ?a + ?c" using o(2,4) by simp
    have blk: "pixels div ?c * ?c = ?a" "pixels mod ?c = pixels - ?a"
      using last_block [OF da o(3) lt] by simp_all
    have m: "min ?c (pixels - ?a) = pixels - ?a" using lt by simp
    have n: "n = pixels" using d False by simp
    have buf': "take ((pixels - ?a) * lp) (cl_buffer_floats_out ?S (fst (snd R)))
                 = reference_rows F lp ?a pixels"
      using buf o(3) unfolding m by simp
    have lbuf: "(pixels - ?a) * lp \<le> length (cl_buffer_floats_out ?S (fst (snd R)))"
      using arg_cong [OF buf', of length] by (simp add: reference_rows_length)
    have "(?a + (pixels - ?a)) * nat (lambda_pixel ?S) \<le> length (snd (snd (snd (snd R))))"
      using lfl o(3) by (simp add: kS)
    moreover have "(pixels - ?a) * nat (lambda_pixel ?S) \<le> length (cl_buffer_floats_out ?S (fst (snd R)))"
      using lbuf by (simp add: kS)
    ultimately have e: "extractData (fst (snd R)) (pixels - ?a) ?a (snd (snd (snd R))) ?S
       = (fst (snd (snd (snd R))),
          take (?a * nat (lambda_pixel ?S)) ?fl
          @ take ((pixels - ?a) * nat (lambda_pixel ?S)) (cl_buffer_floats_out ?S (fst (snd R)))
          @ drop ((?a + (pixels - ?a)) * nat (lambda_pixel ?S)) ?fl)"
      using extractData_floats [OF kS(1)] by blast
    have t1: "take (?a * lp) ?fl = reference_rows F lp 0 ?a"
      using fl by (simp add: reference_rows_length)
    have t3: "drop (pixels * lp) ?fl = []" using lfl by simp
    have t4: "drop (pixels * lp) floats = []" using len' by simp
    have app: "reference_rows F lp 0 ?a @ reference_rows F lp ?a pixels = reference_rows F lp 0 pixels"
      using o(3) by (intro reference_rows_append) simp_all
    show ?thesis
      using o(3) by (simp add: blk e kS byt t1 buf' t3 t4 app n)
  qed
  then show ?thesis unfolding res by blast
qed

lemma constructRegularGrid_constants:
  "chunk_size (snd (constructRegularGrid gx gy gz dx dy dz s)) = chunk_size s"
  "kernel_source (snd (constructRegularGrid gx gy gz dx dy dz s)) = kernel_source s"
  "goftCube (snd (constructRegularGrid gx gy gz dx dy dz s)) = goftCube s"
  by (simp_all add: constructRegularGrid_def Let_def)

lemma setRenderingSettings_ready:
  assumes "hasRegularGrid s"
  shows "chunk_size (snd (setRenderingSettings xp yp lp lw m mi s)) = chunk_size s"
    and "kernel_source (snd (setRenderingSettings xp yp lp lw m mi s)) = kernel_source s"
    and "x_pixel (snd (setRenderingSettings xp yp lp lw m mi s)) = xp"
    and "y_pixel (snd (setRenderingSettings xp yp lp lw m mi s)) = yp"
    and "lambda_pixel (snd (setRenderingSettings xp yp lp lw m mi s)) = lp"
    and "displayMode (snd (setRenderingSettings xp yp lp lw m mi s)) = m"
    and "hasRenderingSettings (snd (setRenderingSettings xp yp lp lw m mi s))"
    and "\<exists>p. kernels (snd (setRenderingSettings xp yp lp lw m mi s)) = Some p
             \<and> ALL_INTENSITIES p = (m = AllIntensities) \<and> LAMBDA_PIXEL p = lp"
  using assms by (simp_all add: setRenderingSettings_def Let_def setDisplayMode_def)

lemma example_ready_chunk_facts:
  "chunk_size (example_ready_chunk c) = c"
  "kernel_source (example_ready_chunk c) = ext_kernel example_externals"
  "x_pixel (example_ready_chunk c) = 2"
  "y_pixel (example_ready_chunk c) = 2"
  "lambda_pixel (example_ready_chunk c) = 2"
  "displayMode (example_ready_chunk c) = AllIntensities"
  "\<exists>p. kernels (example_ready_chunk c) = Some p \<and> ALL_INTENSITIES p \<and> LAMBDA_PIXEL p = 2"
  using setRenderingSettings_ready(8) [OF constructRegularGrid_flags(1), of 2 2 2 1 AllIntensities 1]
  by (simp_all add: example_ready_chunk_def setRenderingSettings_ready constructRegularGrid_flags
      constructRegularGrid_constants new_RegularGridRenderer_def example_goftcube_def
      min_element_def max_element_def example_externals_def)

lemma example_render_chunk:
  assumes "0 < c"
  shows "map_sum id (\<lambda>r. snd (snd r)) (render 0 0 1 1 ([], replicate 8 None) (example_ready_chunk c))
     = Inr ([], reference_rows (\<lambda>g k. real g) 2 0 (if 4 mod c = 0 then 4 - c else 4)
                @ replicate (8 - (if 4 mod c = 0 then 4 - c else 4) * 2) None)"
proof -
  let ?s = "example_ready_chunk c"
  obtain p where "kernels ?s = Some p \<and> ALL_INTENSITIES p \<and> LAMBDA_PIXEL p = 2"
    using example_ready_chunk_facts(7) [of c] by blast
  then have p: "kernels ?s = Some p" "ALL_INTENSITIES p" "LAMBDA_PIXEL p = lambda_pixel ?s"
    by (simp_all add: example_ready_chunk_facts(5))
  have F: "(\<lambda>g k. real g) = ray_floats (kernel_source ?s)
                  (kernel_env p (?s\<lparr>parameters := Some (frame_parameters 0 0 1 1 ?s)\<rparr>))"
    by (simp add: example_ready_chunk_facts(2) example_externals_def)
  have c: "0 < chunk_size ?s" using assms by (simp add: example_ready_chunk_facts(1))
  have dm: "displayMode ?s = AllIntensities" by (rule example_ready_chunk_facts(6))
  have len: "length (replicate 8 (None :: real option)) = nat (x_pixel ?s * y_pixel ?s) * nat (lambda_pixel ?s)"
    by (simp add: example_ready_chunk_facts(3,4,5))
  have px: "(4::nat) = nat (x_pixel ?s * y_pixel ?s)"
    by (simp add: example_ready_chunk_facts(3,4))
  have lp: "(2::nat) = nat (lambda_pixel ?s)"
    by (simp add: example_ready_chunk_facts(5))
  have d: "(if 4 mod c = 0 then 4 - c else 4) = (if 4 mod chunk_size ?s = 0 then 4 - chunk_size ?s else 4)"
    by (simp add: example_ready_chunk_facts(1))
  have nn: "0 \<le> x_pixel ?s * y_pixel ?s"
    by (simp add: example_ready_chunk_facts(3,4))
  obtain evs s' where "render 0 0 1 1 ([], replicate 8 None) ?s
     = Inr (evs, s', ([], reference_rows (\<lambda>g k. real g) 2 0 (if 4 mod c = 0 then 4 - c else 4)
                          @ drop ((if 4 mod c = 0 then 4 - c else 4) * 2) (replicate 8 None)))"
    using render_floats [OF c p dm len px lp F d nn, of "[]"] by blast
  then show ?thesis by simp
qed

text \<open>
  C1. The frame is not the same for every chunk size. On the example (2 by 2 pixels, 2
  wavelength samples, the kernel returning the number of the pixel) the frame buffer, new
  before the call, holds after \<^verbatim>\<open>render\<close>: with \<open>chunk_size = 1\<close> the pixels 0, 1, 2 and
  nothing for pixel 3; with \<open>chunk_size = 7\<close> all four pixels; with \<open>chunk_size = 4\<close>, the pixel
  count, nothing at all. By \<open>render_floats\<close>, whenever \<open>chunk_size\<close> divides the pixel
  count the closing \<^verbatim>\<open>extractData\<close> is asked for \<^verbatim>\<open>pixels % chunk_size = 0\<close> pixels and
  the results of the last job are never copied; otherwise the frame is the sequential
  reference.
\<close>

theorem render_depends_on_chunk_size:
  "map_sum id (\<lambda>r. snd (snd r)) (render 0 0 1 1 ([], replicate 8 None) (example_ready_chunk 1))
     = Inr ([], [Some 0, Some 0, Some 1, Some 1, Some 2, Some 2, None, None])
   \<and> map_sum id (\<lambda>r. snd (snd r)) (render 0 0 1 1 ([], replicate 8 None) (example_ready_chunk 7))
     = Inr ([], [Some 0, Some 0, Some 1, Some 1, Some 2, Some 2, Some 3, Some 3])
   \<and> map_sum id (\<lambda>r. snd (snd r)) (render 0 0 1 1 ([], replicate 8 None) (example_ready_chunk 4))
     = Inr ([], [None, None, None, None, None, None, None, None])"
proof -
  have r2: "replicate 2 (None :: real option) = [None, None]"
    by (simp add: numeral_2_eq_2)
  have r8: "replicate 8 (None :: real option) = [None, None, None, None, None, None, None, None]"
    by (simp add: eval_nat_numeral)
  have a: "map_sum id (\<lambda>r. snd (snd r)) (render 0 0 1 1 ([], replicate 8 None) (example_ready_chunk 1))
     = Inr ([], [Some 0, Some 0, Some 1, Some 1, Some 2, Some 2] @ replicate 2 None)"
    using example_render_chunk [of 1] by (simp add: reference_rows_def upt_conv_Cons)
  have b: "map_sum id (\<lambda>r. snd (snd r)) (render 0 0 1 1 ([], replicate 8 None) (example_ready_chunk 7))
     = Inr ([], [Some 0, Some 0, Some 1, Some 1, Some 2, Some 2, Some 3, Some 3])"
    using example_render_chunk [of 7] by (simp add: reference_rows_def upt_conv_Cons)
  have c: "map_sum id (\<lambda>r. snd (snd r)) (render 0 0 1 1 ([], replicate 8 None) (example_ready_chunk 4))
     = Inr ([], replicate 8 None)"
    using example_render_chunk [of 4] by (simp add: reference_rows_def)
  show ?thesis
    unfolding a b c by (simp add: r2 r8)
qed

section \<open>The sweep over the angle pairs\<close>

lemma tally_append [simp]:
  "frames_rendered (xs @ ys) = frames_rendered xs + frames_rendered ys"
  "files_written (xs @ ys) = files_written xs @ files_written ys"
  "index_builds (xs @ ys) = index_builds xs + index_builds ys"
  "grid_builds (xs @ ys) = grid_builds xs + grid_builds ys"
  by (simp_all add: frames_rendered_def files_written_def index_builds_def grid_builds_def)

lemma tally_Nil [simp]:
  "frames_rendered [] = 0" "files_written [] = []" "index_builds [] = 0" "grid_builds [] = 0"
  by (simp_all add: frames_rendered_def files_written_def index_builds_def grid_builds_def)

lemma tally_enqueue:
  "list_all is_enqueue evs \<Longrightarrow>
   frames_rendered evs = 0 \<and> files_written evs = [] \<and> index_builds evs = 0 \<and> grid_builds evs = 0"
proof (induction evs)
  case Nil
  then show ?case by simp
next
  case (Cons e evs)
  then show ?case
    by (cases e) (simp_all add: frames_rendered_def files_written_def index_builds_def grid_builds_def)
qed

lemma tally_setDisplayMode:
  "frames_rendered (fst (setDisplayMode m s)) = 0"
  "files_written (fst (setDisplayMode m s)) = []"
  "index_builds (fst (setDisplayMode m s)) = 0"
  "grid_builds (fst (setDisplayMode m s)) = 0"
  by (simp_all add: setDisplayMode_def frames_rendered_def files_written_def index_builds_def
      grid_builds_def)

lemma enqueueKernel_events: "fst (enqueueKernel i off n s) = [EnqueueKernel i off n]"
  by (simp add: enqueueKernel_def)

lemma enqueueKernel_frame:
  "snd (enqueueKernel i off n s)
     = s\<lparr>cl_buffer_bytes_out := cl_buffer_bytes_out (snd (enqueueKernel i off n s)),
         cl_buffer_floats_out := cl_buffer_floats_out (snd (enqueueKernel i off n s))\<rparr>"
  by (simp add: enqueueKernel_def split: option.splits)

lemma render_loop_frame:
  "list_all is_enqueue (fst acc) \<Longrightarrow>
   list_all is_enqueue (fst (render_loop c p off i acc))
   \<and> (\<exists>A B. fst (snd (snd (render_loop c p off i acc)))
         = (fst (snd acc))\<lparr>cl_buffer_bytes_out := A, cl_buffer_floats_out := B\<rparr>)"
proof (induction c p off i acc rule: render_loop.induct)
  case (1 chunk pixels offset index acc)
  show ?case
  proof (cases "0 < chunk \<and> offset < pixels")
    case False
    have "fst (snd acc) = (fst (snd acc))\<lparr>cl_buffer_bytes_out := cl_buffer_bytes_out (fst (snd acc)),
            cl_buffer_floats_out := cl_buffer_floats_out (fst (snd acc))\<rparr>"
      by simp
    then have "\<exists>A B. fst (snd acc) = (fst (snd acc))\<lparr>cl_buffer_bytes_out := A,
            cl_buffer_floats_out := B\<rparr>"
      by blast
    then show ?thesis
      using "1.prems" unfolding render_loop_stop [OF False] by simp
  next
    case True
    define r where "r = enqueueKernel (1 - index) offset (min chunk (pixels - offset)) (fst (snd acc))"
    let ?acc' = "(fst acc @ fst r, snd r, extractData index chunk (offset - chunk) (snd (snd acc)) (snd r))"
    have step: "render_loop chunk pixels offset index acc
                  = render_loop chunk pixels (offset + chunk) (1 - index) ?acc'"
      using True unfolding r_def by (simp add: render_loop_step)
    have ev: "list_all is_enqueue (fst ?acc')"
      using "1.prems" by (simp add: r_def enqueueKernel_events)
    obtain A B where ab: "snd r = (fst (snd acc))\<lparr>cl_buffer_bytes_out := A, cl_buffer_floats_out := B\<rparr>"
      unfolding r_def using enqueueKernel_frame by blast
    have ih: "list_all is_enqueue (fst (render_loop chunk pixels (offset + chunk) (1 - index) ?acc'))
       \<and> (\<exists>A B. fst (snd (snd (render_loop chunk pixels (offset + chunk) (1 - index) ?acc')))
              = (fst (snd ?acc'))\<lparr>cl_buffer_bytes_out := A, cl_buffer_floats_out := B\<rparr>)"
      using "1.IH" [OF True refl, folded r_def, OF ev] .
    then obtain A' B' where ab': "fst (snd (snd (render_loop chunk pixels (offset + chunk) (1 - index) ?acc')))
              = (snd r)\<lparr>cl_buffer_bytes_out := A', cl_buffer_floats_out := B'\<rparr>"
      by auto
    have "(snd r)\<lparr>cl_buffer_bytes_out := A', cl_buffer_floats_out := B'\<rparr>
            = (fst (snd acc))\<lparr>cl_buffer_bytes_out := A', cl_buffer_floats_out := B'\<rparr>"
      by (simp add: ab)
    with ab' have "fst (snd (snd (render_loop chunk pixels (offset + chunk) (1 - index) ?acc')))
              = (fst (snd acc))\<lparr>cl_buffer_bytes_out := A', cl_buffer_floats_out := B'\<rparr>"
      by (rule trans)
    then show ?thesis unfolding step using ih by blast
  qed
qed

lemma render_frame:
  assumes "0 < chunk_size s" "0 \<le> x_pixel s * y_pixel s"
  shows "\<exists>evs A B out'. render l b w h out s
           = Inr (evs, s\<lparr>cl_buffer_bytes_out := A, cl_buffer_floats_out := B,
                         parameters := Some (frame_parameters l b w h s)\<rparr>, out')
           \<and> list_all is_enqueue evs"
proof -
  define s1 where "s1 = s\<lparr>parameters := Some (frame_parameters l b w h s)\<rparr>"
  define pixels where "pixels = nat (x_pixel s * y_pixel s)"
  define r0 where "r0 = enqueueKernel 0 0 (min (chunk_size s) pixels) s1"
  define acc where "acc = (fst r0, snd r0, out)"
  define R where "R = render_loop (chunk_size s) pixels (chunk_size s) 0 acc"
  have res: "render l b w h out s
     = Inr (fst R, fst (snd (snd R)),
            extractData (fst (snd R)) (pixels mod chunk_size s) (pixels div chunk_size s * chunk_size s)
              (snd (snd (snd R))) (fst (snd (snd R))))"
    using assms by (simp add: render_def Let_def pixels_def [symmetric] s1_def [symmetric]
        r0_def [symmetric] acc_def [symmetric] R_def [symmetric])
  have "list_all is_enqueue (fst acc)" by (simp add: acc_def r0_def enqueueKernel_events)
  then have ev: "list_all is_enqueue (fst R)"
    and "\<exists>A B. fst (snd (snd R)) = (fst (snd acc))\<lparr>cl_buffer_bytes_out := A, cl_buffer_floats_out := B\<rparr>"
    unfolding R_def using render_loop_frame by blast+
  then obtain A B where 1: "fst (snd (snd R)) = (snd r0)\<lparr>cl_buffer_bytes_out := A, cl_buffer_floats_out := B\<rparr>"
    by (auto simp: acc_def)
  obtain A0 B0 where 2: "snd r0 = s1\<lparr>cl_buffer_bytes_out := A0, cl_buffer_floats_out := B0\<rparr>"
    unfolding r0_def using enqueueKernel_frame by blast
  have "(snd r0)\<lparr>cl_buffer_bytes_out := A, cl_buffer_floats_out := B\<rparr>
           = s\<lparr>cl_buffer_bytes_out := A, cl_buffer_floats_out := B,
                         parameters := Some (frame_parameters l b w h s)\<rparr>"
    by (simp add: 2 s1_def)
  with 1 have "fst (snd (snd R)) = s\<lparr>cl_buffer_bytes_out := A, cl_buffer_floats_out := B,
                         parameters := Some (frame_parameters l b w h s)\<rparr>"
    by (rule trans)
  then show ?thesis unfolding res using ev by blast
qed

lemma tally_Cons [simp]:
  "frames_rendered (e # evs)
     = (if e = Timing ''Finished rendering frame in '' then 1 else 0) + frames_rendered evs"
  "files_written (e # evs) = written e @ files_written evs"
  "index_builds (e # evs) = (if is_build e then 1 else 0) + index_builds evs"
  "grid_builds (e # evs) = (if is_coverage e then 1 else 0) + grid_builds evs"
  by (simp_all add: frames_rendered_def files_written_def index_builds_def grid_builds_def)


lemma renderToCube_body_summary:
  assumes rdy: "frame_ready s"
  shows "\<exists>evs s' cube. renderToCube_body l b w h fileName store s
            = Inr (evs, s', if store then Some cube else None)
          \<and> frames_rendered evs = 1
          \<and> files_written evs = (if fileName \<noteq> [] then [(fileName, cube)] else [])
          \<and> index_builds evs = 0 \<and> grid_builds evs = 0
          \<and> cube_angles cube = Some (l, b)
          \<and> frame_ready s'"
proof -
  have c: "0 < chunk_size s" and xp: "0 < x_pixel s" and yp: "0 < y_pixel s"
    and lp: "1 < lambda_pixel s"
    using rdy by (simp_all add: frame_ready_def)
  have xy: "0 < x_pixel s * y_pixel s" using xp yp by simp
  have xyl: "\<not> x_pixel s * y_pixel s * lambda_pixel s < 0"
    using mult_pos_pos [OF xy, of "lambda_pixel s"] lp by linarith
  define r0 where "r0 = (if displayMode s \<noteq> AllIntensities then setDisplayMode AllIntensities s else ([], s))"
  define data where "data = replicate (nat (x_pixel s * y_pixel s * lambda_pixel s)) (None :: real option)"
  have c0: "0 < chunk_size (snd r0)" using c by (simp add: r0_def setDisplayMode_def)
  have p0: "0 \<le> x_pixel (snd r0) * y_pixel (snd r0)"
    using xy by (simp add: r0_def setDisplayMode_def)
  obtain evs A B out' where r: "render l b w h ([], data) (snd r0)
           = Inr (evs, (snd r0)\<lparr>cl_buffer_bytes_out := A, cl_buffer_floats_out := B,
                         parameters := Some (frame_parameters l b w h (snd r0))\<rparr>, out')"
    and ev: "list_all is_enqueue evs"
    using render_frame [OF c0 p0] by blast
  define s1 where "s1 = (snd r0)\<lparr>cl_buffer_bytes_out := A, cl_buffer_floats_out := B,
                         parameters := Some (frame_parameters l b w h (snd r0))\<rparr>"
  define cube where "cube = frame_cube l b w h (snd out') s1"
  define r2 where "r2 = (if displayMode s \<noteq> AllIntensities then setDisplayMode (displayMode s) s1 else ([], s1))"
  define evs' where "evs' = fst r0 @ [Timing ''Finished allocating frame buffer in ''] @ evs
           @ [Timing ''Finished rendering frame in '',
              Timing ''Finished initializing RenderCube in '',
              Timing ''Finished extracting data in '',
              Timing ''Finished constructing RenderCube in '']
           @ (if fileName \<noteq> []
              then [WriteGoftCube fileName cube, Timing ''Finished writing RenderCube to file in '']
              else [])
           @ (if store then [Timing ''Finished copying RenderCube in ''] else [])
           @ fst r2"
  have res: "renderToCube_body l b w h fileName store s
               = Inr (evs', snd r2, if store then Some cube else None)"
    using xp yp lp
    by (simp add: xyl renderToCube_body_def Let_def r0_def [symmetric] data_def [symmetric] r
        s1_def [symmetric] cube_def [symmetric] r2_def [symmetric] evs'_def)
  have t0: "frames_rendered (fst r0) = 0" "files_written (fst r0) = []"
    "index_builds (fst r0) = 0" "grid_builds (fst r0) = 0"
    by (simp_all add: r0_def tally_setDisplayMode)
  have t2: "frames_rendered (fst r2) = 0" "files_written (fst r2) = []"
    "index_builds (fst r2) = 0" "grid_builds (fst r2) = 0"
    by (simp_all add: r2_def tally_setDisplayMode)
  note te = tally_enqueue [OF ev]
  have f: "frames_rendered evs' = 1"
    by (simp add: evs'_def t0 t2 te)
  have w: "files_written evs' = (if fileName \<noteq> [] then [(fileName, cube)] else [])"
    by (simp add: evs'_def t0 t2 te)
  have ib: "index_builds evs' = 0"
    by (simp add: evs'_def t0 t2 te)
  have gb: "grid_builds evs' = 0"
    by (simp add: evs'_def t0 t2 te)
  have a: "cube_angles cube = Some (l, b)"
    by (simp add: cube_def frame_cube_def cube_angles_def)
  have p: "frame_ready (snd r2)"
    using rdy by (simp add: frame_ready_def r2_def s1_def r0_def setDisplayMode_def)
  show ?thesis
    unfolding res using f w ib gb a p by blast
qed


lemma frame_file_name_not_empty: "frame_file_name ext outfile l b \<noteq> []"
  by (simp add: frame_file_name_def)

lemma renderToCube_summary:
  assumes "frame_ready s"
    and "fileName \<noteq> [] \<or> store"
  shows "\<exists>evs s' cube. renderToCube l b w h fileName store s
            = Inr (evs, s', if store then Some cube else None)
          \<and> frames_rendered evs = 1
          \<and> files_written evs = (if fileName \<noteq> [] then [(fileName, cube)] else [])
          \<and> index_builds evs = 0 \<and> grid_builds evs = 0
          \<and> cube_angles cube = Some (l, b)
          \<and> frame_ready s'"
proof -
  have "renderToCube l b w h fileName store s = renderToCube_body l b w h fileName store s"
    using assms by (auto simp: renderToCube_def frame_ready_def)
  then show ?thesis
    using renderToCube_body_summary [OF assms(1), of l b w h fileName store] by simp
qed

lemma sweep_b_summary:
  "frame_ready s \<Longrightarrow>
   \<exists>evs' s' cube'. sweep_b ext outfile w h l last_l bs (evs, s, cube) = Inr (evs', s', cube')
     \<and> frame_ready s'
     \<and> frames_rendered evs'
         = frames_rendered evs
           + (if outfile \<noteq> [] then length bs else if last_l \<and> bs \<noteq> [] then 1 else 0)
     \<and> map (\<lambda>fc. (fst fc, cube_angles (snd fc))) (files_written evs')
         = map (\<lambda>fc. (fst fc, cube_angles (snd fc))) (files_written evs)
           @ (if outfile \<noteq> []
              then map (\<lambda>b. (frame_file_name ext outfile l b, Some (l, b))) bs else [])
     \<and> index_builds evs' = index_builds evs \<and> grid_builds evs' = grid_builds evs
     \<and> (if last_l \<and> bs \<noteq> [] then cube_angles cube' = Some (l, last bs) else cube' = cube)"
proof (induction bs arbitrary: evs s cube)
  case Nil
  then show ?case by simp
next
  case (Cons b bs)
  define fileName where "fileName = (if outfile = [] then [] else frame_file_name ext outfile l b)"
  define store where "store = (last_l \<and> bs = [])"
  note unfold = sweep_b.simps(2) [of ext outfile w h l last_l b bs "(evs, s, cube)",
      folded fileName_def store_def, unfolded fst_conv snd_conv]
  have fn: "fileName = [] \<longleftrightarrow> outfile = []"
    by (simp add: fileName_def frame_file_name_not_empty)
  show ?case
  proof (cases "outfile = [] \<and> \<not> store")
    case True
    then have call: "renderToCube l b w h fileName store s = Inr ([], s, None)"
      by (simp add: renderToCube_def fn)
    obtain evs' s' cube' where ih:
      "sweep_b ext outfile w h l last_l bs (evs, s, cube) = Inr (evs', s', cube')"
      "frame_ready s'"
      "frames_rendered evs'
         = frames_rendered evs
           + (if outfile \<noteq> [] then length bs else if last_l \<and> bs \<noteq> [] then 1 else 0)"
      "map (\<lambda>fc. (fst fc, cube_angles (snd fc))) (files_written evs')
         = map (\<lambda>fc. (fst fc, cube_angles (snd fc))) (files_written evs)
           @ (if outfile \<noteq> []
              then map (\<lambda>b. (frame_file_name ext outfile l b, Some (l, b))) bs else [])"
      "index_builds evs' = index_builds evs" "grid_builds evs' = grid_builds evs"
      "if last_l \<and> bs \<noteq> [] then cube_angles cube' = Some (l, last bs) else cube' = cube"
      using Cons.IH [OF Cons.prems, of evs cube] by blast
    have "sweep_b ext outfile w h l last_l (b # bs) (evs, s, cube) = Inr (evs', s', cube')"
      unfolding unfold call using ih(1) by simp
    then show ?thesis
      using ih(2-) True unfolding store_def by auto
  next
    case False
    then have out: "fileName \<noteq> [] \<or> store"
      by (auto simp: fn)
    obtain evs1 s1 cube1 where call:
      "renderToCube l b w h fileName store s = Inr (evs1, s1, if store then Some cube1 else None)"
      "frames_rendered evs1 = 1"
      "files_written evs1 = (if fileName \<noteq> [] then [(fileName, cube1)] else [])"
      "index_builds evs1 = 0" "grid_builds evs1 = 0"
      "cube_angles cube1 = Some (l, b)"
      "frame_ready s1"
      using renderToCube_summary [OF Cons.prems out, of l b w h] by blast
    define cube0 where "cube0 = (if store then cube1 else cube)"
    note inv1 = call(7)
    obtain evs' s' cube' where ih:
      "sweep_b ext outfile w h l last_l bs (evs @ evs1, s1, cube0) = Inr (evs', s', cube')"
      "frame_ready s'"
      "frames_rendered evs'
         = frames_rendered (evs @ evs1)
           + (if outfile \<noteq> [] then length bs else if last_l \<and> bs \<noteq> [] then 1 else 0)"
      "map (\<lambda>fc. (fst fc, cube_angles (snd fc))) (files_written evs')
         = map (\<lambda>fc. (fst fc, cube_angles (snd fc))) (files_written (evs @ evs1))
           @ (if outfile \<noteq> []
              then map (\<lambda>b. (frame_file_name ext outfile l b, Some (l, b))) bs else [])"
      "index_builds evs' = index_builds (evs @ evs1)" "grid_builds evs' = grid_builds (evs @ evs1)"
      "if last_l \<and> bs \<noteq> [] then cube_angles cube' = Some (l, last bs) else cube' = cube0"
      using Cons.IH [OF inv1, of "evs @ evs1" cube0] by blast
    have "sweep_b ext outfile w h l last_l (b # bs) (evs, s, cube) = Inr (evs', s', cube')"
      unfolding unfold call(1) using ih(1) by (cases store) (simp_all add: cube0_def)
    moreover have "frames_rendered evs'
         = frames_rendered evs
           + (if outfile \<noteq> [] then length (b # bs) else if last_l \<and> b # bs \<noteq> [] then 1 else 0)"
      using ih(3) call(2) False unfolding store_def by auto
    moreover have "map (\<lambda>fc. (fst fc, cube_angles (snd fc))) (files_written evs')
         = map (\<lambda>fc. (fst fc, cube_angles (snd fc))) (files_written evs)
           @ (if outfile \<noteq> []
              then map (\<lambda>b. (frame_file_name ext outfile l b, Some (l, b))) (b # bs) else [])"
      using ih(4) call(3,6) fn by (auto simp: fileName_def)
    moreover have "if last_l \<and> b # bs \<noteq> [] then cube_angles cube' = Some (l, last (b # bs))
                   else cube' = cube"
      using ih(7) call(6) False unfolding store_def cube0_def by (auto split: if_splits)
    ultimately show ?thesis
      using ih(2,5,6) call(4,5) by simp
  qed
qed

lemma sweep_l_summary:
  "frame_ready s \<Longrightarrow>
   \<exists>evs' s' cube'. sweep_l ext outfile w h ls bvec (evs, s, cube) = Inr (evs', s', cube')
     \<and> frames_rendered evs'
         = frames_rendered evs
           + (if outfile \<noteq> [] then length ls * length bvec
              else if ls \<noteq> [] \<and> bvec \<noteq> [] then 1 else 0)
     \<and> map (\<lambda>fc. (fst fc, cube_angles (snd fc))) (files_written evs')
         = map (\<lambda>fc. (fst fc, cube_angles (snd fc))) (files_written evs)
           @ (if outfile \<noteq> []
              then map (\<lambda>lb. (frame_file_name ext outfile (fst lb) (snd lb), Some lb))
                     (List.product ls bvec)
              else [])
     \<and> index_builds evs' = index_builds evs \<and> grid_builds evs' = grid_builds evs
     \<and> (if ls \<noteq> [] \<and> bvec \<noteq> [] then cube_angles cube' = Some (last ls, last bvec)
         else cube' = cube)"
proof (induction ls arbitrary: evs s cube)
  case Nil
  then show ?case by simp
next
  case (Cons l ls)
  obtain evs1 s1 cube1 where row:
    "sweep_b ext outfile w h l (ls = []) bvec (evs, s, cube) = Inr (evs1, s1, cube1)"
    "frame_ready s1"
    "frames_rendered evs1
       = frames_rendered evs
         + (if outfile \<noteq> [] then length bvec else if ls = [] \<and> bvec \<noteq> [] then 1 else 0)"
    "map (\<lambda>fc. (fst fc, cube_angles (snd fc))) (files_written evs1)
       = map (\<lambda>fc. (fst fc, cube_angles (snd fc))) (files_written evs)
         @ (if outfile \<noteq> []
            then map (\<lambda>b. (frame_file_name ext outfile l b, Some (l, b))) bvec else [])"
    "index_builds evs1 = index_builds evs" "grid_builds evs1 = grid_builds evs"
    "if ls = [] \<and> bvec \<noteq> [] then cube_angles cube1 = Some (l, last bvec) else cube1 = cube"
    using sweep_b_summary [OF Cons.prems, of ext outfile w h l "ls = []" bvec evs cube] by blast
  obtain evs' s' cube' where ih:
    "sweep_l ext outfile w h ls bvec (evs1, s1, cube1) = Inr (evs', s', cube')"
    "frames_rendered evs'
       = frames_rendered evs1
         + (if outfile \<noteq> [] then length ls * length bvec
            else if ls \<noteq> [] \<and> bvec \<noteq> [] then 1 else 0)"
    "map (\<lambda>fc. (fst fc, cube_angles (snd fc))) (files_written evs')
       = map (\<lambda>fc. (fst fc, cube_angles (snd fc))) (files_written evs1)
         @ (if outfile \<noteq> []
            then map (\<lambda>lb. (frame_file_name ext outfile (fst lb) (snd lb), Some lb))
                   (List.product ls bvec)
            else [])"
    "index_builds evs' = index_builds evs1" "grid_builds evs' = grid_builds evs1"
    "if ls \<noteq> [] \<and> bvec \<noteq> [] then cube_angles cube' = Some (last ls, last bvec)
     else cube' = cube1"
    using Cons.IH [OF row(2), of evs1 cube1] by blast
  have "sweep_l ext outfile w h (l # ls) bvec (evs, s, cube) = Inr (evs', s', cube')"
    using row(1) ih(1) by simp
  moreover have "frames_rendered evs'
       = frames_rendered evs
         + (if outfile \<noteq> [] then length (l # ls) * length bvec
            else if l # ls \<noteq> [] \<and> bvec \<noteq> [] then 1 else 0)"
    using ih(2) row(3) by auto
  moreover have "map (\<lambda>fc. (fst fc, cube_angles (snd fc))) (files_written evs')
       = map (\<lambda>fc. (fst fc, cube_angles (snd fc))) (files_written evs)
         @ (if outfile \<noteq> []
            then map (\<lambda>lb. (frame_file_name ext outfile (fst lb) (snd lb), Some lb))
                   (List.product (l # ls) bvec)
            else [])"
    using ih(3) row(4) by (simp add: comp_def)
  moreover have "if l # ls \<noteq> [] \<and> bvec \<noteq> [] then cube_angles cube' = Some (last (l # ls), last bvec)
     else cube' = cube"
    using ih(6) row(7) by (auto split: if_splits)
  ultimately show ?case
    using ih(4,5) row(5,6) by simp
qed

lemma new_RegularGridRenderer_summary:
  assumes "new_RegularGridRenderer ext g = Inr n"
  shows "chunk_size (snd n) = ext_chunk_size ext"
    and "frames_rendered (fst n) = 0" "files_written (fst n) = []"
    and "index_builds (fst n) = 1" "grid_builds (fst n) = 0"
  using assms
  by (auto simp: new_RegularGridRenderer_def split: option.splits prod.splits if_splits)

lemma constructRegularGrid_tally:
  "frames_rendered (fst (constructRegularGrid gx gy gz dx dy dz s)) = 0"
  "files_written (fst (constructRegularGrid gx gy gz dx dy dz s)) = []"
  "index_builds (fst (constructRegularGrid gx gy gz dx dy dz s)) = 0"
  "grid_builds (fst (constructRegularGrid gx gy gz dx dy dz s)) = 1"
  by (simp_all add: constructRegularGrid_def Let_def)

lemma setRenderingSettings_tally:
  "frames_rendered (fst (setRenderingSettings xp yp lp lw m mi s)) = 0"
  "files_written (fst (setRenderingSettings xp yp lp lw m mi s)) = []"
  "index_builds (fst (setRenderingSettings xp yp lp lw m mi s)) = 0"
  "grid_builds (fst (setRenderingSettings xp yp lp lw m mi s)) = 0"
  by (simp_all add: setRenderingSettings_def Let_def tally_setDisplayMode)

lemma RenderWithGPURegularGrid_summary:
  assumes "new_RegularGridRenderer ext g = Inr n"
    and "0 < ext_chunk_size ext" and "0 < xp" "0 < yp" "1 < lp"
  shows "\<exists>evs cube. RenderWithGPURegularGrid ext g xp yp zp lp lw lvec bvec outfile = Inr (evs, cube)
     \<and> index_builds evs = 1 \<and> grid_builds evs = 1
     \<and> frames_rendered evs
         = (if outfile \<noteq> [] then length lvec * length bvec
            else if lvec \<noteq> [] \<and> bvec \<noteq> [] then 1 else 0)
     \<and> map (\<lambda>fc. (fst fc, cube_angles (snd fc))) (files_written evs)
         = (if outfile \<noteq> []
            then map (\<lambda>lb. (frame_file_name ext outfile (fst lb) (snd lb), Some lb))
                   (List.product lvec bvec)
            else [])
     \<and> (if lvec \<noteq> [] \<and> bvec \<noteq> [] then cube_angles cube = Some (last lvec, last bvec)
         else cube = RenderCube_of g)"
proof -
  define d where "d = (case maxdistance (minx (snd n)) (maxx (snd n)) (miny (snd n)) (maxy (snd n)) xp yp of
                         None \<Rightarrow> 0 | Some v \<Rightarrow> v)"
  define r1 where "r1 = constructRegularGrid xp yp zp d d d (snd n)"
  define r2 where "r2 = setRenderingSettings xp yp lp lw AllIntensities (ext_max_intensity ext) (snd r1)"
  define evs0 where "evs0 = fst n @ fst r1 @ fst r2"
  have g: "hasRegularGrid (snd r1)" by (simp add: r1_def constructRegularGrid_flags)
  have c1: "chunk_size (snd r1) = ext_chunk_size ext"
    using new_RegularGridRenderer_summary(1) [OF assms(1)]
    by (simp add: r1_def constructRegularGrid_constants)
  have inv: "frame_ready (snd r2)"
    using assms(2-) by (simp add: frame_ready_def r2_def setRenderingSettings_ready [OF g] c1)
  have t0: "frames_rendered evs0 = 0" "files_written evs0 = []"
    "index_builds evs0 = 1" "grid_builds evs0 = 1"
    using new_RegularGridRenderer_summary(2-) [OF assms(1)]
    by (simp_all add: evs0_def r1_def r2_def constructRegularGrid_tally setRenderingSettings_tally)
  obtain evs' s' cube' where sw:
    "sweep_l ext outfile (maxx (snd n) - minx (snd n)) (maxy (snd n) - miny (snd n)) lvec bvec
       (evs0, snd r2, RenderCube_of g) = Inr (evs', s', cube')"
    "frames_rendered evs'
       = frames_rendered evs0
         + (if outfile \<noteq> [] then length lvec * length bvec
            else if lvec \<noteq> [] \<and> bvec \<noteq> [] then 1 else 0)"
    "map (\<lambda>fc. (fst fc, cube_angles (snd fc))) (files_written evs')
       = map (\<lambda>fc. (fst fc, cube_angles (snd fc))) (files_written evs0)
         @ (if outfile \<noteq> []
            then map (\<lambda>lb. (frame_file_name ext outfile (fst lb) (snd lb), Some lb))
                   (List.product lvec bvec)
            else [])"
    "index_builds evs' = index_builds evs0" "grid_builds evs' = grid_builds evs0"
    "if lvec \<noteq> [] \<and> bvec \<noteq> [] then cube_angles cube' = Some (last lvec, last bvec)
     else cube' = RenderCube_of g"
    using sweep_l_summary [OF inv, of ext outfile "maxx (snd n) - minx (snd n)"
        "maxy (snd n) - miny (snd n)" lvec bvec evs0 "RenderCube_of g"] by blast
  have "RenderWithGPURegularGrid ext g xp yp zp lp lw lvec bvec outfile = Inr (evs', cube')"
    using sw(1)
    by (simp add: RenderWithGPURegularGrid_def assms(1) Let_def d_def [symmetric]
        r1_def [symmetric] r2_def [symmetric] evs0_def [symmetric])
  then show ?thesis
    using sw(2-) t0 by simp
qed

lemma renderToCube_body_imaging:
  assumes "0 < chunk_size s" "lambda_pixel s = 1" "0 < x_pixel s" "0 < y_pixel s"
  shows "renderToCube_body l b w h fileName store s = Inl IndexPastEnd"
proof -
  define r0 where "r0 = (if displayMode s \<noteq> AllIntensities then setDisplayMode AllIntensities s else ([], s))"
  have c0: "0 < chunk_size (snd r0)" using assms(1) by (simp add: r0_def setDisplayMode_def)
  have xy: "0 < x_pixel s * y_pixel s" using assms(3,4) by simp
  have p0: "0 \<le> x_pixel (snd r0) * y_pixel (snd r0)"
    using xy by (simp add: r0_def setDisplayMode_def)
  have nn: "\<not> x_pixel s * y_pixel s < 0" using xy by simp
  obtain r where "render l b w h ([], replicate (nat (x_pixel s * y_pixel s * lambda_pixel s)) None) (snd r0) = Inr r"
    using render_frame [OF c0 p0] by blast
  then show ?thesis
    using assms(2-) by (simp add: nn renderToCube_body_def Let_def r0_def [symmetric])
qed

lemma RenderWithGPURegularGrid_imaging:
  assumes "new_RegularGridRenderer ext g = Inr n"
    and "0 < ext_chunk_size ext" and "0 < xp" "0 < yp" and "outfile \<noteq> []"
  shows "RenderWithGPURegularGrid ext g xp yp zp 1 lw (l # ls) (b # bs) outfile = Inl IndexPastEnd"
proof -
  define d where "d = (case maxdistance (minx (snd n)) (maxx (snd n)) (miny (snd n)) (maxy (snd n)) xp yp of
                         None \<Rightarrow> 0 | Some v \<Rightarrow> v)"
  define r1 where "r1 = constructRegularGrid xp yp zp d d d (snd n)"
  define r2 where "r2 = setRenderingSettings xp yp 1 lw AllIntensities (ext_max_intensity ext) (snd r1)"
  have g: "hasRegularGrid (snd r1)" by (simp add: r1_def constructRegularGrid_flags)
  have c1: "chunk_size (snd r1) = ext_chunk_size ext"
    using new_RegularGridRenderer_summary(1) [OF assms(1)]
    by (simp add: r1_def constructRegularGrid_constants)
  have inv: "hasRenderingSettings (snd r2)" "0 < chunk_size (snd r2)" "lambda_pixel (snd r2) = 1"
    "0 < x_pixel (snd r2)" "0 < y_pixel (snd r2)"
    using assms(2-4) by (simp_all add: r2_def setRenderingSettings_ready [OF g] c1)
  have "renderToCube l b (maxx (snd n) - minx (snd n)) (maxy (snd n) - miny (snd n))
          (frame_file_name ext outfile l b) (ls = [] \<and> bs = []) (snd r2) = Inl IndexPastEnd"
    using inv(1) renderToCube_body_imaging [OF inv(2-5)]
    by (simp add: renderToCube_def frame_file_name_not_empty)
  then show ?thesis
    using assms(5)
    by (simp add: RenderWithGPURegularGrid_def assms(1) Let_def d_def [symmetric]
        r1_def [symmetric] r2_def [symmetric])
qed

text \<open>
  With a negative number of wavelength samples, and pixels along both axes, the frame
  buffer has a negative length and no frame is made.
\<close>

lemma renderToCube_body_negative:
  "0 < x_pixel s \<Longrightarrow> 0 < y_pixel s \<Longrightarrow> lambda_pixel s < 0 \<Longrightarrow>
   renderToCube_body l b w h fileName store s = Inl NegativeSize"
proof -
  assume "0 < x_pixel s" "0 < y_pixel s" "lambda_pixel s < 0"
  then have "x_pixel s * y_pixel s * lambda_pixel s < 0"
    by (simp add: mult_less_0_iff zero_less_mult_iff)
  then show ?thesis by (simp add: renderToCube_body_def Let_def)
qed

text \<open>
  The file names of the angles 0 and \<open>\<pi>\<close>, and of a small negative angle, which is rounded
  to the negative zero.
\<close>

lemma show_nat_digits:
  "show_nat 0 = ''0''" "show_nat 180 = ''180''"
  by (simp_all add: show_nat.simps char_of_def bit_iff_odd)

lemma std_round_examples:
  "std_round (0 / pi * 180) = (False, 0)"
  "std_round (pi / pi * 180) = (False, 180)"
  "std_round (- (pi / 1000) / pi * 180) = (True, 0)"
  by (simp_all add: std_round_def c_round_def)

lemma example_file_names:
  "frame_file_name example_externals ''out'' 0 0 = ''outl000b000.txt''"
  "frame_file_name example_externals ''out'' pi 0 = ''outl180b000.txt''"
  "frame_file_name example_externals ''out'' (- (pi / 1000)) 0 = ''outl0-0b000.txt''"
  using std_round_examples
  by (simp_all add: frame_file_name_def example_externals_def show_integral_def setw3_def
      show_nat_digits numeral_2_eq_2)

text \<open>
  C5 as stated fails on two inputs. With no output path and the angle lists \<open>[0, 1]\<close> and
  \<open>[0]\<close> there are two pairs and one frame is rendered: the call for the pair \<open>(0, 0)\<close> has
  an empty file name and a null pointer and returns at once. With one wavelength sample the
  sweep has no result: the first frame writes \<^verbatim>\<open>newgrid[2]\<close>, which is pushed only for
  \<open>lambda_pixel > 1\<close>.
\<close>

theorem sweep_without_output_path:
  "map_sum id (\<lambda>r. frames_rendered (fst r))
     (RenderWithGPURegularGrid example_externals example_goftcube 2 2 1 2 1 [0, 1] [0] [])
     = Inr 1
   \<and> List.product [0, 1 :: real] [0 :: real] = [(0, 0), (1, 0)]
   \<and> RenderWithGPURegularGrid example_externals example_goftcube 2 2 1 1 1 [0, 1] [0] ''out''
     = Inl IndexPastEnd"
proof -
  have c: "0 < ext_chunk_size example_externals" by (simp add: example_externals_def)
  obtain evs cube where
    "RenderWithGPURegularGrid example_externals example_goftcube 2 2 1 2 1 [0, 1] [0] [] = Inr (evs, cube)"
    "frames_rendered evs = (if ([] :: string) \<noteq> [] then length [0, 1 :: real] * length [0 :: real]
            else if [0, 1 :: real] \<noteq> [] \<and> [0 :: real] \<noteq> [] then 1 else 0)"
    using RenderWithGPURegularGrid_summary [OF example_new c, of 2 2 2 1 1 "[0, 1]" "[0]" "[]"]
    by auto
  then have a: "map_sum id (\<lambda>r. frames_rendered (fst r))
     (RenderWithGPURegularGrid example_externals example_goftcube 2 2 1 2 1 [0, 1] [0] []) = Inr 1"
    by simp
  have b: "RenderWithGPURegularGrid example_externals example_goftcube 2 2 1 1 1 [0, 1] [0] ''out''
     = Inl IndexPastEnd"
    using RenderWithGPURegularGrid_imaging [OF example_new c, of 2 2 "''out''" 1 1 0 "[1]" 0 "[]"]
    by simp
  show ?thesis using a b by simp
qed

text \<open>
  C5, amended. On a cube with non-empty coordinate vectors, with a positive \<open>chunk_size\<close>,
  a positive number of cells and pixels along x, y and z, at least two wavelength samples,
  and the numbers of cells and of frame values within the range of an int,
  \<^verbatim>\<open>RenderWithGPURegularGrid\<close> returns; it has built the spatial index once and the regular
  grid once. When an output path is given it has rendered one frame for every pair of the
  Cartesian product of \<open>lvec\<close> and \<open>bvec\<close> and has written the frames to the files named
  after the pairs, in the order of the product (\<open>l\<close> outer, \<open>b\<close> inner). When no output
  path is given it has written no file and rendered one frame, that of the final pair (none
  when a list is empty). The cube returned holds the frame of the final pair, and is the
  cube made from the input when a list is empty.
\<close>

theorem sweep_renders_product:
  assumes "new_RegularGridRenderer ext g = Inr n"
    and "0 < ext_chunk_size ext" and "0 < xp" "0 < yp" "1 < lp"
    and "0 < zp" "xp * yp * zp \<le> INT_MAX" "xp * yp * lp \<le> INT_MAX"
  shows "\<exists>evs cube. RenderWithGPURegularGrid ext g xp yp zp lp lw lvec bvec outfile = Inr (evs, cube)
     \<and> index_builds evs = 1 \<and> grid_builds evs = 1
     \<and> frames_rendered evs
         = (if outfile \<noteq> [] then length lvec * length bvec
            else if lvec \<noteq> [] \<and> bvec \<noteq> [] then 1 else 0)
     \<and> map (\<lambda>fc. (fst fc, cube_angles (snd fc))) (files_written evs)
         = (if outfile \<noteq> []
            then map (\<lambda>lb. (frame_file_name ext outfile (fst lb) (snd lb), Some lb))
                   (List.product lvec bvec)
            else [])
     \<and> (if lvec \<noteq> [] \<and> bvec \<noteq> [] then cube_angles cube = Some (last lvec, last bvec)
         else cube = RenderCube_of g)"
  using assms(1-5) by (rule RenderWithGPURegularGrid_summary)

theorem sweep_renders_product_witness:
  "new_RegularGridRenderer example_externals example_goftcube
     = Inr (fst (projr (new_RegularGridRenderer example_externals example_goftcube)), example_renderer)
   \<and> 0 < ext_chunk_size example_externals \<and> (0 :: int) < 2 \<and> (1 :: int) < 2 \<and> (0 :: int) < 1
   \<and> (2 :: int) * 2 * 1 \<le> INT_MAX \<and> (2 :: int) * 2 * 2 \<le> INT_MAX
   \<and> map_sum id
       (\<lambda>r. (index_builds (fst r), grid_builds (fst r), frames_rendered (fst r),
             map (\<lambda>fc. (fst fc, cube_angles (snd fc))) (files_written (fst r)),
             cube_angles (snd r)))
       (RenderWithGPURegularGrid example_externals example_goftcube 2 2 1 2 1 [0, pi] [0] ''out'')
     = Inr (1, 1, 2,
            [(''outl000b000.txt'', Some (0, 0)), (''outl180b000.txt'', Some (pi, 0))],
            Some (pi, 0))"
proof -
  have c: "0 < ext_chunk_size example_externals" by (simp add: example_externals_def)
  have p: "(0 :: int) < 2" "(0 :: int) < 2" "(1 :: int) < 2" "(0 :: int) < 1"
    "(2 :: int) * 2 * 1 \<le> INT_MAX" "(2 :: int) * 2 * 2 \<le> INT_MAX"
    by (simp_all add: INT_MAX_def)
  obtain evs cube where
    "RenderWithGPURegularGrid example_externals example_goftcube 2 2 1 2 1 [0, pi] [0] ''out'' = Inr (evs, cube)"
    "index_builds evs = 1" "grid_builds evs = 1"
    "frames_rendered evs = 2"
    "map (\<lambda>fc. (fst fc, cube_angles (snd fc))) (files_written evs)
       = [(frame_file_name example_externals ''out'' 0 0, Some (0, 0)),
          (frame_file_name example_externals ''out'' pi 0, Some (pi, 0))]"
    "cube_angles cube = Some (pi, 0)"
    using sweep_renders_product [OF example_new c p, of 1 "[0, pi]" "[0]" "''out''"]
    by auto
  then show ?thesis using example_new c p by (simp add: example_file_names)
qed
end
